theory Spec2Isabelle
  imports Main "HOL-Library.Multiset" "HOL-Library.Log_Nat"
begin

section \<open>Python values: exceptions and the outcome of a call\<close>

text \<open>
  An exception is identified by the name of its class. Every exception of the model is an
  instance of Python's \<^verbatim>\<open>Exception\<close>, which is what the handler
  \<^verbatim>\<open>except Exception as e\<close> of \<^verbatim>\<open>PlaceNodeCommand.redo_\<close> catches.

  A call either returns a value or raises. In both cases the state it has reached is kept:
  a Python exception does not roll back the assignments made before it.
\<close>

datatype exn = Exception string

datatype ('v, 's) outcome = Returns 'v 's | Raises exn 's

fun final :: "('v, 's) outcome \<Rightarrow> 's" where
  "final (Returns v s) = s"
| "final (Raises e s) = s"

fun raised :: "('v, 's) outcome \<Rightarrow> exn option" where
  "raised (Returns v s) = None"
| "raised (Raises e s) = Some e"

section \<open>Data of the editor\<close>

text \<open>
  \<^verbatim>\<open>QPointF\<close>: a pair of coordinates. The coordinate type is a parameter: the
  definitions only use its \<open>+\<close> and \<open>-\<close>, so they read the same for machine floats and
  for exact numbers.
\<close>

datatype 'a QPointF = QPointF (x_of: 'a) (y_of: 'a)

definition QPointF_add :: "'a::plus QPointF \<Rightarrow> 'a QPointF \<Rightarrow> 'a QPointF" where
  "QPointF_add p q = QPointF (x_of p + x_of q) (y_of p + y_of q)"

definition QPointF_sub :: "'a::minus QPointF \<Rightarrow> 'a QPointF \<Rightarrow> 'a QPointF" where
  "QPointF_sub p q = QPointF (x_of p - x_of q) (y_of p - y_of q)"

text \<open>
  Objects are identified by a number (their identity). A port knows its node
  (\<^verbatim>\<open>port.node\<close>) and is either a \<^verbatim>\<open>NodeInput\<close> or a
  \<^verbatim>\<open>NodeOutput\<close>. A \<^verbatim>\<open>ConnectionInfo\<close> is the value that
  describes a connection by its two endpoints (spec, glossary); two of them are equal when
  their endpoints are.
\<close>

datatype port = NodeInput (port_node: nat) nat | NodeOutput (port_node: nat) nat

datatype ConnectionInfo = ConnectionInfo (out_port: port) (inp_port: port)

text \<open>
  The items of the view that the commands tell apart with \<^verbatim>\<open>isinstance\<close>:
  a \<^verbatim>\<open>NodeItem\<close> (with its \<^verbatim>\<open>node\<close>), a
  \<^verbatim>\<open>DrawingObject\<close> and a \<^verbatim>\<open>ConnectionItem\<close> (with its
  \<^verbatim>\<open>connection\<close>).
\<close>

datatype item = NodeItem nat | DrawingObject nat | ConnectionItem ConnectionInfo

datatype signal = node_placed nat | add_new_signal | add_existing_signal

text \<open>
  A node class, as far as \<^verbatim>\<open>flow.create_node\<close> is concerned: the ports its
  constructor creates, and the exception the constructor raises, if it does.
\<close>

record node_class =
  class_inputs :: nat
  class_outputs :: nat
  class_init :: "exn option"

text \<open>
  The clipboard data handed to \<^verbatim>\<open>PasteCommand\<close>: a dictionary with the
  lists \<^verbatim>\<open>'nodes'\<close>, \<^verbatim>\<open>'connections'\<close> and
  \<^verbatim>\<open>'drawings'\<close>; node and drawing descriptors are dictionaries with the keys
  \<^verbatim>\<open>'pos x'\<close> and \<^verbatim>\<open>'pos y'\<close>.
\<close>

record 'a pos_data =
  pos_x :: 'a
  pos_y :: 'a

record 'a node_data = "'a pos_data" +
  data_inputs :: nat
  data_outputs :: nat

record conn_data =
  parent_node_index :: nat
  output_port_index :: nat
  connected_node :: nat
  connected_input_port_index :: nat

record 'a paste_data =
  data_nodes :: "'a node_data list"
  data_connections :: "conn_data list"
  data_drawings :: "'a pos_data list"

text \<open>
  The state of the program that the commands read and write.
  \<^item> \<open>any_cmd_active\<close> is the class attribute \<^verbatim>\<open>FlowUndoCommand._any_cmd_active\<close>;
  \<^item> \<open>err_log\<close> collects the messages given to \<^verbatim>\<open>InfoMsgs.write_err\<close>,
    \<open>traceback_log\<close> what \<^verbatim>\<open>traceback.print_exc\<close> prints, \<open>emitted\<close> the
    signals the commands emit;
  \<^item> \<open>flow_nodes\<close>, \<open>flow_conns\<close>, \<open>node_inputs\<close> and \<open>node_outputs\<close> are the
    graph model: the nodes of the flow, its connections (output port, input port), and the
    attributes \<^verbatim>\<open>_inputs\<close> and \<^verbatim>\<open>_outputs\<close> of each node;
  \<^item> \<open>view_drawings\<close>, \<open>current_selected\<close> and \<open>item_pos\<close> are the view: the
    drawings it shows, the selection, the position of every item;
  \<^item> \<open>item_str\<close> is Python's \<^verbatim>\<open>str\<close> on an item, \<open>drawing_call\<close> what
    the call \<^verbatim>\<open>drawing(True)\<close> does;
  \<^item> \<open>next_id\<close> is the identity that the next new object (node or drawing) gets;
  \<^item> \<open>data_store\<close> holds the data dictionaries, by reference: a dictionary handed to a
    command is shared with the caller, not copied.
\<close>

record 'a world =
  any_cmd_active :: bool
  err_log :: "string list"
  traceback_log :: "exn list"
  emitted :: "signal list"
  flow_nodes :: "nat list"
  flow_conns :: "(port \<times> port) list"
  node_inputs :: "nat \<Rightarrow> port list"
  node_outputs :: "nat \<Rightarrow> port list"
  next_id :: nat
  view_drawings :: "nat list"
  current_selected :: "item list"
  item_pos :: "item \<Rightarrow> 'a QPointF"
  item_str :: "item \<Rightarrow> string"
  drawing_call :: "nat \<Rightarrow> exn + string"
  data_store :: "nat \<Rightarrow> 'a paste_data"

text \<open>
  A command: the fields of the base class \<^verbatim>\<open>FlowUndoCommand\<close>
  (\<^verbatim>\<open>_activated\<close>, and the text of the \<^verbatim>\<open>QUndoCommand\<close>), and the
  fields of its concrete class, in the order of the assignments of its
  \<^verbatim>\<open>__init__\<close>:
  \<^item> \<open>Delegate on_undo on_redo\<close>
  \<^item> \<open>MoveComponents items_list p_from p_to last_item_group_pos\<close>
  \<^item> \<open>PlaceNode node_class node item_pos prev_selected\<close>
  \<^item> \<open>PlaceDrawing drawing drawing_obj_place_pos drawing_obj_pos prev_selected\<close>
  \<^item> \<open>SelectComponents items prev_items\<close>
  \<^item> \<open>RemoveComponents items selection silent broken_connections internal_connections
     node_items nodes drawings\<close>
  \<^item> \<open>ConnectPorts silent out inp connection_info connection connecting\<close>
  \<^item> \<open>Paste data nodes connections drawings\<close>

  The two Python sets of \<^verbatim>\<open>RemoveComponentsCommand\<close> are lists to which an element
  is only added when it is not yet a member.
\<close>

datatype 'a body =
    Delegate "'a world \<Rightarrow> (unit, 'a world) outcome" "'a world \<Rightarrow> (unit, 'a world) outcome"
  | MoveComponents "item list" "'a QPointF" "'a QPointF" "'a QPointF"
  | PlaceNode node_class "nat option" "'a QPointF" "item list"
  | PlaceDrawing nat "'a QPointF" "'a QPointF" "item list"
  | SelectComponents "item list" "item list"
  | RemoveComponents "item list" "item list" bool
      (broken_connections: "ConnectionInfo list") (internal_connections: "ConnectionInfo list")
      "item list" (removed_nodes: "nat list") "nat list"
  | ConnectPorts bool port port ConnectionInfo "(port \<times> port) option" (connecting: bool)
  | Paste nat (pasted_nodes: "nat list") (pasted_connections: "(port \<times> port) list")
      (pasted_drawings: "nat list")

record 'a command =
  activated :: bool
  text_of :: string
  body :: "'a body"

type_synonym 'a cmd_outcome = "(unit, 'a command \<times> 'a world) outcome"

section \<open>The graph model and the view\<close>

text \<open>
  The flow (\<^verbatim>\<open>cognixcore.Flow\<close>) and the view (\<^verbatim>\<open>FlowView\<close>) are
  not among the files of the commands. Their operations are modelled from section 6 of the
  specification, which lists them, and from the glossary: a connection is a directed edge
  from one output port to one input port.
\<close>

definition write_err :: "string \<Rightarrow> 'a world \<Rightarrow> 'a world" where
  \<comment> \<open>Modelled from the spec: \<^verbatim>\<open>InfoMsgs.write_err\<close>, the diagnostic channel.\<close>
  "write_err msg w = w\<lparr>err_log := err_log w @ [msg]\<rparr>"

definition print_exc :: "exn \<Rightarrow> 'a world \<Rightarrow> 'a world" where
  \<comment> \<open>\<^verbatim>\<open>traceback.print_exc()\<close> in a handler of the exception \<open>e\<close>.\<close>
  "print_exc e w = w\<lparr>traceback_log := traceback_log w @ [e]\<rparr>"

definition emit :: "signal \<Rightarrow> 'a world \<Rightarrow> 'a world" where
  "emit sig w = w\<lparr>emitted := emitted w @ [sig]\<rparr>"

definition connection_info :: "port \<times> port \<Rightarrow> ConnectionInfo" where
  \<comment> \<open>Modelled from the spec: \<^verbatim>\<open>connection_info((out,in)) -> ConnectionInfo\<close>.\<close>
  "connection_info c = ConnectionInfo (fst c) (snd c)"

definition connected_inputs :: "'a world \<Rightarrow> port \<Rightarrow> port list" where
  \<comment> \<open>Modelled from the spec: \<^verbatim>\<open>connected_inputs(out) -> sequence\<close>.\<close>
  "connected_inputs w out = map snd (filter (\<lambda>c. fst c = out) (flow_conns w))"

definition connected_output :: "'a world \<Rightarrow> port \<Rightarrow> port option" where
  \<comment> \<open>Modelled from the spec: \<^verbatim>\<open>connected_output(in) -> Optional[out]\<close>.\<close>
  "connected_output w inp = map_option fst (find (\<lambda>c. snd c = inp) (flow_conns w))"

definition add_connection :: "port \<times> port \<Rightarrow> 'a world \<Rightarrow> 'a world" where
  \<comment> \<open>Modelled from the spec: the connection becomes an edge of the graph.\<close>
  "add_connection c w = w\<lparr>flow_conns := flow_conns w @ [c]\<rparr>"

definition remove_connection :: "port \<times> port \<Rightarrow> 'a world \<Rightarrow> 'a world" where
  \<comment> \<open>Modelled from the spec: the edge leaves the graph.\<close>
  "remove_connection c w = w\<lparr>flow_conns := remove1 c (flow_conns w)\<rparr>"

definition connect_ports :: "port \<Rightarrow> port \<Rightarrow> bool \<Rightarrow> 'a world \<Rightarrow> (port \<times> port) option \<times> 'a world" where
  \<comment> \<open>Modelled from the spec: \<^verbatim>\<open>connect_ports(out, in, silent) -> Connection\<close>.
      The flag \<open>silent\<close> only suppresses notifications.\<close>
  "connect_ports out inp silent w = (Some (out, inp), add_connection (out, inp) w)"

definition connect_from_info :: "ConnectionInfo \<Rightarrow> bool \<Rightarrow> 'a world \<Rightarrow> 'a world" where
  \<comment> \<open>Modelled from the spec: \<^verbatim>\<open>connect_from_info(ConnectionInfo, silent)\<close>.\<close>
  "connect_from_info ci silent w = add_connection (out_port ci, inp_port ci) w"

definition disconnect_from_info :: "ConnectionInfo \<Rightarrow> bool \<Rightarrow> 'a world \<Rightarrow> 'a world" where
  \<comment> \<open>Modelled from the spec: \<^verbatim>\<open>disconnect_from_info(ConnectionInfo, silent)\<close>.\<close>
  "disconnect_from_info ci silent w = remove_connection (out_port ci, inp_port ci) w"

definition add_node :: "nat \<Rightarrow> 'a world \<Rightarrow> 'a world" where
  \<comment> \<open>Modelled from the spec: \<^verbatim>\<open>add_node(Node)\<close>.\<close>
  "add_node n w = w\<lparr>flow_nodes := flow_nodes w @ [n]\<rparr>"

definition remove_node :: "nat \<Rightarrow> 'a world \<Rightarrow> 'a world" where
  \<comment> \<open>Modelled from the spec: \<^verbatim>\<open>remove_node(Node)\<close>.\<close>
  "remove_node n w = w\<lparr>flow_nodes := remove1 n (flow_nodes w)\<rparr>"

definition new_node :: "nat \<Rightarrow> nat \<Rightarrow> 'a world \<Rightarrow> nat \<times> 'a world" where
  \<comment> \<open>Modelled from the spec: a new node object with \<open>k_in\<close> inputs and \<open>k_out\<close>
      outputs, added to the flow.\<close>
  "new_node k_in k_out w =
     (let n = next_id w in
      (n, w\<lparr>next_id := Suc n,
            node_inputs := (node_inputs w)(n := map (NodeInput n) [0..<k_in]),
            node_outputs := (node_outputs w)(n := map (NodeOutput n) [0..<k_out]),
            flow_nodes := flow_nodes w @ [n]\<rparr>))"

definition create_node :: "node_class \<Rightarrow> 'a world \<Rightarrow> (nat, 'a world) outcome" where
  \<comment> \<open>Modelled from the spec: \<^verbatim>\<open>create_node(class) -> Node\<close>; the constructor of
      the node class may raise.\<close>
  "create_node cls w =
     (case class_init cls of
        Some e \<Rightarrow> Raises e w
      | None \<Rightarrow> (case new_node (class_inputs cls) (class_outputs cls) w of
                   (n, w') \<Rightarrow> Returns n w'))"

definition select_items :: "item list \<Rightarrow> 'a world \<Rightarrow> 'a world" where
  \<comment> \<open>Modelled from the spec: the view's selection set is replaced.\<close>
  "select_items its w = w\<lparr>current_selected := its\<rparr>"

definition add_drawing :: "nat \<Rightarrow> 'a QPointF option \<Rightarrow> 'a world \<Rightarrow> 'a world" where
  \<comment> \<open>Modelled from the spec: the view shows the drawing, at \<open>posF\<close> when one is given.\<close>
  "add_drawing d posF w =
     (let w' = w\<lparr>view_drawings := view_drawings w @ [d]\<rparr> in
      case posF of
        None \<Rightarrow> w'
      | Some p \<Rightarrow> w'\<lparr>item_pos := (item_pos w')(DrawingObject d := p)\<rparr>)"

definition remove_drawing :: "nat \<Rightarrow> 'a world \<Rightarrow> 'a world" where
  \<comment> \<open>Modelled from the spec: the view no longer shows the drawing
      (\<^verbatim>\<open>remove_drawing\<close>, and \<^verbatim>\<open>remove_component\<close> on a drawing).\<close>
  "remove_drawing d w = w\<lparr>view_drawings := remove1 d (view_drawings w)\<rparr>"

definition create_drawing :: "'a pos_data \<Rightarrow> 'a world \<Rightarrow> nat \<times> 'a world" where
  \<comment> \<open>Modelled from the spec: a new drawing object made from its descriptor.\<close>
  "create_drawing d w = (next_id w, w\<lparr>next_id := Suc (next_id w)\<rparr>)"

definition move_items_group :: "item list \<Rightarrow> 'a::plus QPointF \<Rightarrow> 'a world \<Rightarrow> 'a world" where
  \<comment> \<open>Modelled from the spec (4.3) and the documentation of Qt:
      \<^verbatim>\<open>g = scene().createItemGroup(items); g.setPos(p); scene().destroyItemGroup(g)\<close>.
      Qt creates the group at position (0, 0) with the items as its children, so moving the
      group to \<open>p\<close> moves each of its items by \<open>p\<close>; destroying the group keeps the items
      where they are.\<close>
  "move_items_group its p w =
     w\<lparr>item_pos := (\<lambda>i. if i \<in> set its then QPointF_add (item_pos w i) p else item_pos w i)\<rparr>"

section \<open>commands.py\<close>

definition undo_text_multi :: "('i \<Rightarrow> string) \<Rightarrow> 'i list \<Rightarrow> string \<Rightarrow> string" where
  \<comment> \<open>The text of a command on zero, one or several items; \<open>to_str\<close> is \<^verbatim>\<open>str\<close>
      when the caller gives none.\<close>
  "undo_text_multi to_str its command =
     (if length its = 1 then command @ '' '' @ to_str (hd its)
      else if length its = 0 then ''Clear-'' @ command
      else ''Multi-'' @ command)"

subsection \<open>FlowUndoCommand\<close>

definition FlowUndoCommand_init :: "'a body \<Rightarrow> 'a command" where
  "FlowUndoCommand_init b = \<lparr>activated = False, text_of = [], body = b\<rparr>"

definition setText :: "string \<Rightarrow> 'a command \<Rightarrow> 'a command" where
  "setText t c = c\<lparr>text_of := t\<rparr>"

definition redo_msg :: string where
  "redo_msg = ''FlowUndoCommand.redo() called while another FlowUndoCommand is active, '' @
     ''most likely due to a recursive redo. This is not allowed. '' @
     ''The editor is now in an undefined state. Save your work and restart the editor. ''"

definition undo_msg :: string where
  "undo_msg = ''FlowUndoCommand.undo() called while another FlowUndoCommand is active, '' @
     ''most likely due to a recursive undo. This is not allowed. '' @
     ''The editor is now in an undefined state. Save your work and restart the editor. ''"

subsection \<open>DelegateCommand\<close>

definition DelegateCommand ::
  "string \<Rightarrow> ('a world \<Rightarrow> (unit, 'a world) outcome) \<Rightarrow> ('a world \<Rightarrow> (unit, 'a world) outcome)
     \<Rightarrow> 'a command" where
  "DelegateCommand t on_undo on_redo = setText t (FlowUndoCommand_init (Delegate on_undo on_redo))"

definition call_delegate ::
  "'a command \<Rightarrow> ('a world \<Rightarrow> (unit, 'a world) outcome) \<Rightarrow> 'a world \<Rightarrow> 'a cmd_outcome" where
  "call_delegate c f w =
     (case f w of Returns u w' \<Rightarrow> Returns () (c, w') | Raises e w' \<Rightarrow> Raises e (c, w'))"

subsection \<open>MoveComponentsCommand\<close>

definition MoveComponentsCommand ::
  "'a world \<Rightarrow> item list \<Rightarrow> 'a QPointF \<Rightarrow> 'a QPointF \<Rightarrow> 'a command" where
  "MoveComponentsCommand w items_list p_from p_to =
     setText (undo_text_multi (item_str w) items_list ''Move'')
       (FlowUndoCommand_init (MoveComponents items_list p_from p_to p_to))"

definition MoveComponents_undo_impl ::
  "'a::plus command \<Rightarrow> item list \<Rightarrow> 'a QPointF \<Rightarrow> 'a QPointF \<Rightarrow> 'a QPointF \<Rightarrow> 'a world
     \<Rightarrow> 'a cmd_outcome" where
  \<comment> \<open>The position of the group after \<^verbatim>\<open>setPos(p_from)\<close> is \<open>p_from\<close>;
      \<^verbatim>\<open>item.on_move()\<close> notifies the items and changes nothing here.\<close>
  "MoveComponents_undo_impl c items_list p_from p_to last_item_group_pos w =
     Returns () (c\<lparr>body := MoveComponents items_list p_from p_to p_from\<rparr>,
                 move_items_group items_list p_from w)"

definition MoveComponents_redo_impl ::
  "'a::{plus,minus} command \<Rightarrow> item list \<Rightarrow> 'a QPointF \<Rightarrow> 'a QPointF \<Rightarrow> 'a QPointF \<Rightarrow> 'a world
     \<Rightarrow> 'a cmd_outcome" where
  "MoveComponents_redo_impl c items_list p_from p_to last_item_group_pos w =
     Returns () (c, move_items_group items_list (QPointF_sub p_to last_item_group_pos) w)"

subsection \<open>PlaceNodeCommand\<close>

definition PlaceNodeCommand :: "'a world \<Rightarrow> node_class \<Rightarrow> 'a QPointF \<Rightarrow> 'a command" where
  "PlaceNodeCommand w cls pos = FlowUndoCommand_init (PlaceNode cls None pos (current_selected w))"

definition on_node_placed :: "'a world \<Rightarrow> nat \<Rightarrow> 'a command \<Rightarrow> 'a command" where
  \<comment> \<open>The slot connected to \<^verbatim>\<open>node_placed\<close>: \<^verbatim>\<open>setText(f'Create {node.gui.item}')\<close>.\<close>
  "on_node_placed w n c = setText (''Create '' @ item_str w (NodeItem n)) c"

definition PlaceNode_undo_impl ::
  "'a command \<Rightarrow> node_class \<Rightarrow> nat option \<Rightarrow> 'a QPointF \<Rightarrow> item list \<Rightarrow> 'a world \<Rightarrow> 'a cmd_outcome" where
  \<comment> \<open>Modelled from the spec: \<^verbatim>\<open>remove_node\<close> takes a node; handed \<^verbatim>\<open>None\<close>
      (no node was created) the call fails.\<close>
  "PlaceNode_undo_impl c cls node pos prev_selected w =
     (case node of
        None \<Rightarrow> Raises (Exception ''AttributeError'') (c, w)
      | Some n \<Rightarrow> Returns () (c, select_items prev_selected (remove_node n w)))"

definition PlaceNode_redo_with ::
  "(nat \<Rightarrow> 'a world \<Rightarrow> (unit, 'a world) outcome) \<Rightarrow> (node_class \<Rightarrow> 'a world \<Rightarrow> (nat, 'a world) outcome)
     \<Rightarrow> 'a command \<Rightarrow> node_class \<Rightarrow> nat option \<Rightarrow> 'a QPointF \<Rightarrow> item list \<Rightarrow> 'a world
     \<Rightarrow> 'a cmd_outcome" where
  \<comment> \<open>\<^verbatim>\<open>redo_\<close>, with the two operations of the flow it calls
      (\<^verbatim>\<open>flow.add_node\<close>, \<^verbatim>\<open>flow.create_node\<close>) as parameters. The inner
      \<open>case\<close> is the body of the \<^verbatim>\<open>try\<close>, the outer one the handler.\<close>
  "PlaceNode_redo_with flow_add_node flow_create_node c cls node pos prev_selected w =
     (case (case node of
              Some n \<Rightarrow>
                (case flow_add_node n w of
                   Returns u w1 \<Rightarrow> Returns n (c, w1)
                 | Raises e w1 \<Rightarrow> Raises e (c, w1))
            | None \<Rightarrow>
                (case flow_create_node cls w of
                   Returns n w1 \<Rightarrow> Returns n (c\<lparr>body := PlaceNode cls (Some n) pos prev_selected\<rparr>, w1)
                 | Raises e w1 \<Rightarrow> Raises e (c, w1)))
      of
        Returns n (c1, w1) \<Rightarrow> Returns () (on_node_placed w1 n c1, emit (node_placed n) w1)
      | Raises e (c1, w1) \<Rightarrow> Raises e (c1, print_exc e w1))"

definition PlaceNode_redo_impl ::
  "'a command \<Rightarrow> node_class \<Rightarrow> nat option \<Rightarrow> 'a QPointF \<Rightarrow> item list \<Rightarrow> 'a world \<Rightarrow> 'a cmd_outcome" where
  "PlaceNode_redo_impl = PlaceNode_redo_with (\<lambda>n w. Returns () (add_node n w)) create_node"

subsection \<open>PlaceDrawingCommand\<close>

definition PlaceDrawingCommand :: "'a world \<Rightarrow> 'a QPointF \<Rightarrow> nat \<Rightarrow> 'a command" where
  "PlaceDrawingCommand w posF drawing =
     FlowUndoCommand_init (PlaceDrawing drawing posF posF (current_selected w))"

definition PlaceDrawing_undo_impl ::
  "'a command \<Rightarrow> nat \<Rightarrow> 'a QPointF \<Rightarrow> 'a QPointF \<Rightarrow> item list \<Rightarrow> 'a world \<Rightarrow> 'a cmd_outcome" where
  "PlaceDrawing_undo_impl c drawing place_pos drawing_obj_pos prev_selected w =
     Returns () (c\<lparr>body := PlaceDrawing drawing place_pos (item_pos w (DrawingObject drawing)) prev_selected\<rparr>,
                 select_items prev_selected (remove_drawing drawing w))"

definition PlaceDrawing_redo_impl ::
  "'a command \<Rightarrow> nat \<Rightarrow> 'a QPointF \<Rightarrow> 'a QPointF \<Rightarrow> item list \<Rightarrow> 'a world \<Rightarrow> 'a cmd_outcome" where
  \<comment> \<open>\<^verbatim>\<open>self.setText(self.drawing(True))\<close> calls the drawing object.\<close>
  "PlaceDrawing_redo_impl c drawing place_pos drawing_obj_pos prev_selected w =
     (let w1 = add_drawing drawing (Some drawing_obj_pos) w in
      case drawing_call w1 drawing of
        Inl e \<Rightarrow> Raises e (c, w1)
      | Inr t \<Rightarrow> Returns () (setText t c, w1))"

subsection \<open>SelectComponentsCommand\<close>

definition SelectComponentsCommand :: "'a world \<Rightarrow> item list \<Rightarrow> item list \<Rightarrow> 'a command" where
  "SelectComponentsCommand w new_items prev_items =
     setText (undo_text_multi (item_str w) new_items ''Select'')
       (FlowUndoCommand_init (SelectComponents new_items prev_items))"

subsection \<open>RemoveComponentsCommand\<close>

definition set_add :: "'x \<Rightarrow> 'x list \<Rightarrow> 'x list" where
  \<comment> \<open>\<^verbatim>\<open>s.add(v)\<close> on a Python set.\<close>
  "set_add v s = (if v \<in> set s then s else s @ [v])"

fun item_nodes :: "item list \<Rightarrow> nat list" where
  "item_nodes [] = []"
| "item_nodes (NodeItem n # its) = n # item_nodes its"
| "item_nodes (i # its) = item_nodes its"

fun item_node_items :: "item list \<Rightarrow> item list" where
  "item_node_items [] = []"
| "item_node_items (NodeItem n # its) = NodeItem n # item_node_items its"
| "item_node_items (i # its) = item_node_items its"

fun item_drawings :: "item list \<Rightarrow> nat list" where
  "item_drawings [] = []"
| "item_drawings (DrawingObject d # its) = d # item_drawings its"
| "item_drawings (i # its) = item_drawings its"

definition scan_selected :: "nat list \<Rightarrow> item \<Rightarrow> ConnectionInfo list \<Rightarrow> ConnectionInfo list" where
  \<comment> \<open>One round of the loop over the items that looks at the connection items.\<close>
  "scan_selected nodes i broken =
     (case i of
        ConnectionItem ci \<Rightarrow>
          if port_node (out_port ci) \<notin> set nodes then set_add ci broken else broken
      | _ \<Rightarrow> broken)"

definition classify ::
  "nat list \<Rightarrow> port \<Rightarrow> port \<times> port \<Rightarrow> ConnectionInfo list \<times> ConnectionInfo list
     \<Rightarrow> ConnectionInfo list \<times> ConnectionInfo list" where
  \<comment> \<open>\<open>cp\<close> is the port at the other end of the connection \<open>conn\<close>; the pair holds
      \<^verbatim>\<open>broken_connections\<close> and \<^verbatim>\<open>internal_connections\<close>.\<close>
  "classify nodes cp conn acc =
     (if port_node cp \<notin> set nodes
      then (set_add (connection_info conn) (fst acc), snd acc)
      else (fst acc, set_add (connection_info conn) (snd acc)))"

definition scan_input ::
  "'a world \<Rightarrow> nat list \<Rightarrow> port \<Rightarrow> ConnectionInfo list \<times> ConnectionInfo list
     \<Rightarrow> ConnectionInfo list \<times> ConnectionInfo list" where
  "scan_input w nodes i acc =
     (case connected_output w i of
        None \<Rightarrow> acc
      | Some cp \<Rightarrow> classify nodes cp (cp, i) acc)"

definition scan_output ::
  "'a world \<Rightarrow> nat list \<Rightarrow> port \<Rightarrow> ConnectionInfo list \<times> ConnectionInfo list
     \<Rightarrow> ConnectionInfo list \<times> ConnectionInfo list" where
  "scan_output w nodes out acc =
     fold (\<lambda>cp. classify nodes cp (out, cp)) (connected_inputs w out) acc"

definition scan_node ::
  "'a world \<Rightarrow> nat list \<Rightarrow> nat \<Rightarrow> ConnectionInfo list \<times> ConnectionInfo list
     \<Rightarrow> ConnectionInfo list \<times> ConnectionInfo list" where
  "scan_node w nodes n acc =
     fold (scan_output w nodes) (node_outputs w n) (fold (scan_input w nodes) (node_inputs w n) acc)"

definition RemoveComponentsCommand :: "'a world \<Rightarrow> item list \<Rightarrow> bool \<Rightarrow> 'a command" where
  "RemoveComponentsCommand w its silent =
     (let nodes = item_nodes its;
          broken = fold (scan_selected nodes) its [];
          acc = fold (scan_node w nodes) nodes (broken, [])
      in setText (undo_text_multi (item_str w) its ''Delete'')
           (FlowUndoCommand_init
              (RemoveComponents its (current_selected w) silent (fst acc) (snd acc)
                 (item_node_items its) nodes (item_drawings its))))"

definition restore_connections :: "ConnectionInfo list \<Rightarrow> bool \<Rightarrow> 'a world \<Rightarrow> 'a world" where
  \<comment> \<open>\<^verbatim>\<open>restore_broken_connections\<close> and \<^verbatim>\<open>restore_internal_connections\<close>.\<close>
  "restore_connections cs silent w = fold (\<lambda>c. connect_from_info c silent) cs w"

definition remove_connections :: "ConnectionInfo list \<Rightarrow> bool \<Rightarrow> 'a world \<Rightarrow> 'a world" where
  \<comment> \<open>\<^verbatim>\<open>remove_broken_connections\<close> and \<^verbatim>\<open>remove_internal_connections\<close>.\<close>
  "remove_connections cs silent w = fold (\<lambda>c. disconnect_from_info c silent) cs w"

definition RemoveComponents_undo_impl ::
  "'a command \<Rightarrow> item list \<Rightarrow> bool \<Rightarrow> ConnectionInfo list \<Rightarrow> ConnectionInfo list \<Rightarrow> nat list
     \<Rightarrow> nat list \<Rightarrow> 'a world \<Rightarrow> 'a cmd_outcome" where
  \<comment> \<open>\<^verbatim>\<open>_on_restored()\<close> notifies the node's view and changes nothing here.\<close>
  "RemoveComponents_undo_impl c selection silent broken internal nodes drawings w =
     (let w1 = fold add_node nodes w;
          w2 = fold (\<lambda>d. add_drawing d None) drawings w1;
          w3 = restore_connections broken silent w2;
          w4 = restore_connections internal silent w3
      in Returns () (c, select_items selection w4))"

definition RemoveComponents_redo_impl ::
  "'a command \<Rightarrow> item list \<Rightarrow> bool \<Rightarrow> ConnectionInfo list \<Rightarrow> ConnectionInfo list \<Rightarrow> nat list
     \<Rightarrow> nat list \<Rightarrow> 'a world \<Rightarrow> 'a cmd_outcome" where
  \<comment> \<open>\<^verbatim>\<open>_on_deleted()\<close> notifies the node's view and changes nothing here.\<close>
  "RemoveComponents_redo_impl c selection silent broken internal nodes drawings w =
     (let w1 = remove_connections broken silent w;
          w2 = remove_connections internal silent w1;
          w3 = fold remove_node nodes w2;
          w4 = fold remove_drawing drawings w3
      in Returns () (c, w4))"

subsection \<open>ConnectPortsCommand\<close>

definition ConnectPortsCommand :: "'a world \<Rightarrow> port \<Rightarrow> port \<Rightarrow> bool \<Rightarrow> 'a command" where
  \<comment> \<open>The loop over \<^verbatim>\<open>connected_inputs(out)\<close> stops at the first input equal to
      \<open>inp\<close>.\<close>
  "ConnectPortsCommand w out inp silent =
     FlowUndoCommand_init
       (case find (\<lambda>i. i = inp) (connected_inputs w out) of
          None \<Rightarrow> ConnectPorts silent out inp (connection_info (out, inp)) None True
        | Some i \<Rightarrow> ConnectPorts silent out inp (connection_info (out, i)) (Some (out, i)) False)"

definition ConnectPorts_undo_impl ::
  "'a command \<Rightarrow> bool \<Rightarrow> port \<Rightarrow> port \<Rightarrow> ConnectionInfo \<Rightarrow> (port \<times> port) option \<Rightarrow> bool \<Rightarrow> 'a world
     \<Rightarrow> 'a cmd_outcome" where
  "ConnectPorts_undo_impl c silent out inp ci conn is_connecting w =
     (if is_connecting
      then Returns () (c, disconnect_from_info ci silent w)
      else Returns () (c, connect_from_info ci silent w))"

definition ConnectPorts_redo_impl ::
  "'a command \<Rightarrow> bool \<Rightarrow> port \<Rightarrow> port \<Rightarrow> ConnectionInfo \<Rightarrow> (port \<times> port) option \<Rightarrow> bool \<Rightarrow> 'a world
     \<Rightarrow> 'a cmd_outcome" where
  "ConnectPorts_redo_impl c silent out inp ci conn is_connecting w =
     (if is_connecting
      then (case conn of
              Some cn \<Rightarrow> Returns () (setText ''Connect nodes'' c, connect_from_info ci silent w)
            | None \<Rightarrow>
                (case connect_ports out inp silent w of
                   (conn', w1) \<Rightarrow>
                     Returns () (setText ''Connect nodes''
                                   (c\<lparr>body := ConnectPorts silent out inp ci conn' is_connecting\<rparr>), w1)))
      else Returns () (setText ''Disconnect nodes'' c, disconnect_from_info ci silent w))"

subsection \<open>PasteCommand\<close>

definition shift_pos :: "'a::plus QPointF \<Rightarrow> ('a, 'm) pos_data_scheme \<Rightarrow> ('a, 'm) pos_data_scheme" where
  \<comment> \<open>\<^verbatim>\<open>d['pos x'] = d['pos x'] + offset.x(); d['pos y'] = d['pos y'] + offset.y()\<close>\<close>
  "shift_pos offset d = d\<lparr>pos_x := pos_x d + x_of offset, pos_y := pos_y d + y_of offset\<rparr>"

definition modify_data_positions :: "nat \<Rightarrow> 'a::plus QPointF \<Rightarrow> 'a world \<Rightarrow> 'a world" where
  \<comment> \<open>The dictionary \<^verbatim>\<open>self.data\<close> is the object at \<open>ref\<close> in the store: the
      assignments change it in place.\<close>
  "modify_data_positions ref offset w =
     (let d = data_store w ref in
      w\<lparr>data_store := (data_store w)
           (ref := d\<lparr>data_nodes := map (shift_pos offset) (data_nodes d),
                     data_drawings := map (shift_pos offset) (data_drawings d)\<rparr>)\<rparr>)"

definition PasteCommand :: "'a::plus world \<Rightarrow> nat \<Rightarrow> 'a QPointF \<Rightarrow> 'a command \<times> 'a world" where
  "PasteCommand w ref offset_for_middle_pos =
     (setText ''Paste'' (FlowUndoCommand_init (Paste ref [] [] [])),
      modify_data_positions ref offset_for_middle_pos w)"

definition create_one_drawing :: "'a pos_data \<Rightarrow> nat list \<times> 'a world \<Rightarrow> nat list \<times> 'a world" where
  \<comment> \<open>One round of the loop of \<^verbatim>\<open>create_drawings\<close>; the list is \<^verbatim>\<open>self.drawings\<close>.\<close>
  "create_one_drawing d acc =
     (case create_drawing d (snd acc) of
        (new_drawing, w1) \<Rightarrow>
          (fst acc @ [new_drawing],
           add_drawing new_drawing (Some (QPointF (pos_x d) (pos_y d))) w1))"

definition create_drawings :: "'a pos_data list \<Rightarrow> 'a world \<Rightarrow> nat list \<times> 'a world" where
  "create_drawings ds w = fold create_one_drawing ds ([], w)"

definition load_node :: "'a node_data \<Rightarrow> nat list \<times> 'a world \<Rightarrow> nat list \<times> 'a world" where
  \<comment> \<open>Modelled from the spec: a node made from its descriptor, shown at the descriptor's
      position.\<close>
  "load_node nd acc =
     (case new_node (data_inputs nd) (data_outputs nd) (snd acc) of
        (n, w1) \<Rightarrow>
          (fst acc @ [n],
           w1\<lparr>item_pos := (item_pos w1)(NodeItem n := QPointF (pos_x nd) (pos_y nd))\<rparr>))"

definition load_nodes :: "'a node_data list \<Rightarrow> 'a world \<Rightarrow> nat list \<times> 'a world" where
  \<comment> \<open>Modelled from the spec: one node per descriptor, in order.\<close>
  "load_nodes nds w = fold load_node nds ([], w)"

fun load_connections ::
  "nat list \<Rightarrow> conn_data list \<Rightarrow> (port \<times> port) list \<Rightarrow> 'a world
     \<Rightarrow> ((port \<times> port) list, 'a world) outcome" where
  \<comment> \<open>Modelled from the spec: a connection descriptor names its two nodes by their index in
      the node descriptors and its two ports by their index in the node; an index out of
      range is an \<^verbatim>\<open>IndexError\<close>.\<close>
  "load_connections ns [] acc w = Returns acc w"
| "load_connections ns (c # cs) acc w =
     (if parent_node_index c < length ns \<and> connected_node c < length ns \<and>
         output_port_index c < length (node_outputs w (ns ! parent_node_index c)) \<and>
         connected_input_port_index c < length (node_inputs w (ns ! connected_node c))
      then
        (let conn = (node_outputs w (ns ! parent_node_index c) ! output_port_index c,
                     node_inputs w (ns ! connected_node c) ! connected_input_port_index c)
         in load_connections ns cs (acc @ [conn]) (add_connection conn w))
      else Raises (Exception ''IndexError'') w)"

definition load_components ::
  "'a node_data list \<Rightarrow> conn_data list \<Rightarrow> 'a world \<Rightarrow> (nat list \<times> (port \<times> port) list, 'a world) outcome" where
  \<comment> \<open>Modelled from the spec:
      \<^verbatim>\<open>load_components(nodes_data, conns_data) -> (nodes, connections)\<close>.\<close>
  "load_components nodes_data conns_data w =
     (case load_nodes nodes_data w of
        (ns, w1) \<Rightarrow>
          (case load_connections ns conns_data [] w1 of
             Returns cs w2 \<Rightarrow> Returns (ns, cs) w2
           | Raises e w2 \<Rightarrow> Raises e w2))"

definition select_new_components_in_view :: "nat list \<Rightarrow> nat list \<Rightarrow> 'a world \<Rightarrow> 'a world" where
  \<comment> \<open>\<^verbatim>\<open>clear_selection()\<close>, then \<^verbatim>\<open>setSelected(True)\<close> on every drawing and
      on the item of every node.\<close>
  "select_new_components_in_view nodes drawings w =
     w\<lparr>current_selected := map DrawingObject drawings @ map NodeItem nodes\<rparr>"

definition add_existing_components ::
  "nat list \<Rightarrow> (port \<times> port) list \<Rightarrow> nat list \<Rightarrow> 'a world \<Rightarrow> 'a world" where
  "add_existing_components nodes conns drawings w =
     (let w1 = fold add_node nodes w;
          w2 = fold add_connection conns w1;
          w3 = fold (\<lambda>d. add_drawing d None) drawings w2
      in select_new_components_in_view nodes drawings w3)"

definition Paste_redo_impl ::
  "'a command \<Rightarrow> nat \<Rightarrow> nat list \<Rightarrow> (port \<times> port) list \<Rightarrow> nat list \<Rightarrow> 'a world \<Rightarrow> 'a cmd_outcome" where
  \<comment> \<open>\<^verbatim>\<open>add_new_signal\<close> is connected to \<^verbatim>\<open>select_new_components_in_view\<close>,
      \<^verbatim>\<open>add_existing_signal\<close> to \<^verbatim>\<open>add_existing_components\<close>.\<close>
  "Paste_redo_impl c ref nodes conns drawings w =
     (if nodes = [] \<and> conns = [] \<and> drawings = []
      then
        (case create_drawings (data_drawings (data_store w ref)) w of
           (drawings1, w1) \<Rightarrow>
             (case load_components (data_nodes (data_store w1 ref))
                     (data_connections (data_store w1 ref)) w1 of
                Raises e w2 \<Rightarrow> Raises e (c\<lparr>body := Paste ref nodes conns drawings1\<rparr>, w2)
              | Returns (nodes1, conns1) w2 \<Rightarrow>
                  Returns () (c\<lparr>body := Paste ref nodes1 conns1 drawings1\<rparr>,
                     select_new_components_in_view nodes1 drawings1 (emit add_new_signal w2))))
      else
        Returns () (c, add_existing_components nodes conns drawings (emit add_existing_signal w)))"

definition Paste_undo_impl ::
  "'a command \<Rightarrow> nat \<Rightarrow> nat list \<Rightarrow> (port \<times> port) list \<Rightarrow> nat list \<Rightarrow> 'a world \<Rightarrow> 'a cmd_outcome" where
  "Paste_undo_impl c ref nodes conns drawings w =
     (let w1 = fold remove_connection conns w;
          w2 = fold remove_node nodes w1;
          w3 = fold remove_drawing drawings w2
      in Returns () (c, w3))"

subsection \<open>The methods of a command\<close>

definition undo_impl :: "'a::{plus,minus} command \<Rightarrow> 'a world \<Rightarrow> 'a cmd_outcome" where
  \<comment> \<open>\<^verbatim>\<open>self.undo_()\<close>: the method of the command's class.\<close>
  "undo_impl c w =
     (case body c of
        Delegate on_undo on_redo \<Rightarrow> call_delegate c on_undo w
      | MoveComponents its pf pt lpos \<Rightarrow> MoveComponents_undo_impl c its pf pt lpos w
      | PlaceNode cls node pos prev \<Rightarrow> PlaceNode_undo_impl c cls node pos prev w
      | PlaceDrawing d place_pos obj_pos prev \<Rightarrow> PlaceDrawing_undo_impl c d place_pos obj_pos prev w
      | SelectComponents its prev \<Rightarrow> Returns () (c, select_items prev w)
      | RemoveComponents its sel silent broken internal node_items nodes drawings \<Rightarrow>
          RemoveComponents_undo_impl c sel silent broken internal nodes drawings w
      | ConnectPorts silent out inp ci conn is_connecting \<Rightarrow>
          ConnectPorts_undo_impl c silent out inp ci conn is_connecting w
      | Paste ref nodes conns drawings \<Rightarrow> Paste_undo_impl c ref nodes conns drawings w)"

definition redo_impl :: "'a::{plus,minus} command \<Rightarrow> 'a world \<Rightarrow> 'a cmd_outcome" where
  \<comment> \<open>\<^verbatim>\<open>self.redo_()\<close>: the method of the command's class.\<close>
  "redo_impl c w =
     (case body c of
        Delegate on_undo on_redo \<Rightarrow> call_delegate c on_redo w
      | MoveComponents its pf pt lpos \<Rightarrow> MoveComponents_redo_impl c its pf pt lpos w
      | PlaceNode cls node pos prev \<Rightarrow> PlaceNode_redo_impl c cls node pos prev w
      | PlaceDrawing d place_pos obj_pos prev \<Rightarrow> PlaceDrawing_redo_impl c d place_pos obj_pos prev w
      | SelectComponents its prev \<Rightarrow> Returns () (c, select_items its w)
      | RemoveComponents its sel silent broken internal node_items nodes drawings \<Rightarrow>
          RemoveComponents_redo_impl c sel silent broken internal nodes drawings w
      | ConnectPorts silent out inp ci conn is_connecting \<Rightarrow>
          ConnectPorts_redo_impl c silent out inp ci conn is_connecting w
      | Paste ref nodes conns drawings \<Rightarrow> Paste_redo_impl c ref nodes conns drawings w)"

definition redo :: "'a::{plus,minus} command \<Rightarrow> 'a world \<Rightarrow> 'a cmd_outcome" where
  "redo c w =
     (if \<not> activated c then Returns () (c, w)
      else if any_cmd_active w then Returns () (c, write_err redo_msg w)
      else
        (case redo_impl c (w\<lparr>any_cmd_active := True\<rparr>) of
           Returns u (c1, w1) \<Rightarrow> Returns () (c1, w1\<lparr>any_cmd_active := False\<rparr>)
         | Raises e s \<Rightarrow> Raises e s))"

definition undo :: "'a::{plus,minus} command \<Rightarrow> 'a world \<Rightarrow> 'a cmd_outcome" where
  "undo c w =
     (if any_cmd_active w then Returns () (c, write_err undo_msg w)
      else
        (case undo_impl c (w\<lparr>any_cmd_active := True\<rparr>) of
           Returns u (c1, w1) \<Rightarrow> Returns () (c1, w1\<lparr>any_cmd_active := False\<rparr>)
         | Raises e s \<Rightarrow> Raises e s))"

definition activate :: "bool \<Rightarrow> 'a::{plus,minus} command \<Rightarrow> 'a world \<Rightarrow> 'a cmd_outcome" where
  "activate silent c w =
     (let c1 = c\<lparr>activated := True\<rparr> in
      if \<not> silent then redo c1 w else Returns () (c1, w))"

section \<open>ports/item.py\<close>

datatype PinState = DISCONNECTED | CONNECTED | VALID | INVALID

text \<open>
  \<^verbatim>\<open>self._port_list\<close> is not a copy: it is the list \<^verbatim>\<open>node._inputs\<close> or
  \<^verbatim>\<open>node._outputs\<close> itself, so the item sees every later change of it.
\<close>

datatype port_list_ref = Inputs_of nat | Outputs_of nat

fun port_list :: "'a world \<Rightarrow> port_list_ref \<Rightarrow> port list" where
  "port_list w (Inputs_of n) = node_inputs w n"
| "port_list w (Outputs_of n) = node_outputs w n"

record PortItemPin =
  pin_port_list :: port_list_ref
  port_index :: int
  pin_state :: PinState

record PortItem =
  item_port_list :: port_list_ref
  item_port_index :: int
  pin :: PortItemPin

datatype theme_call = setup_PI_label port PinState | paint_PI port PinState

definition py_getitem :: "'x list \<Rightarrow> int \<Rightarrow> exn + 'x" where
  \<comment> \<open>\<^verbatim>\<open>xs[i]\<close>: a negative index counts from the end.\<close>
  "py_getitem xs i =
     (if 0 \<le> i \<and> i < int (length xs) then Inr (xs ! nat i)
      else if i < 0 \<and> - int (length xs) \<le> i then Inr (xs ! nat (int (length xs) + i))
      else Inl (Exception ''IndexError''))"

definition port_at :: "port list \<Rightarrow> int \<Rightarrow> exn + port option" where
  \<comment> \<open>The body of the two \<^verbatim>\<open>port\<close> properties.\<close>
  "port_at ports i =
     (if int (length ports) \<le> i then Inr None
      else case py_getitem ports i of Inl e \<Rightarrow> Inl e | Inr p \<Rightarrow> Inr (Some p))"

definition PortItem_port :: "'a world \<Rightarrow> PortItem \<Rightarrow> exn + port option" where
  "PortItem_port w it = port_at (port_list w (item_port_list it)) (item_port_index it)"

definition PortItemPin_port :: "'a world \<Rightarrow> PortItemPin \<Rightarrow> exn + port option" where
  "PortItemPin_port w pn = port_at (port_list w (pin_port_list pn)) (port_index pn)"

definition is_connected :: "'a world \<Rightarrow> port option \<Rightarrow> exn + bool" where
  \<comment> \<open>\<^verbatim>\<open>None\<close> is no \<^verbatim>\<open>NodeOutput\<close>, so the \<^verbatim>\<open>else\<close> branch reads
      \<^verbatim>\<open>port.node\<close>, which \<^verbatim>\<open>None\<close> does not have.\<close>
  "is_connected w p =
     (case p of
        Some (NodeOutput n k) \<Rightarrow> Inr (length (connected_inputs w (NodeOutput n k)) > 0)
      | Some (NodeInput n k) \<Rightarrow> Inr (connected_output w (NodeInput n k) \<noteq> None)
      | None \<Rightarrow> Inl (Exception ''AttributeError''))"

definition set_state :: "'a world \<Rightarrow> PinState \<Rightarrow> bool \<Rightarrow> PortItemPin \<Rightarrow> exn + PortItemPin" where
  \<comment> \<open>\<^verbatim>\<open>is_connected(self.port)\<close> is evaluated first; the last line,
      \<^verbatim>\<open>self.update\<close>, calls nothing.\<close>
  "set_state w val protect_connection pn =
     (case PortItemPin_port w pn of
        Inl e \<Rightarrow> Inl e
      | Inr p \<Rightarrow>
          (case is_connected w p of
             Inl e \<Rightarrow> Inl e
           | Inr conn \<Rightarrow>
               Inr (pn\<lparr>pin_state := (if \<not> (conn \<and> protect_connection) then val else CONNECTED)\<rparr>)))"

definition state_setter :: "'a world \<Rightarrow> PinState \<Rightarrow> PortItemPin \<Rightarrow> exn + PortItemPin" where
  \<comment> \<open>The setter of the property \<^verbatim>\<open>state\<close>.\<close>
  "state_setter w val pn = set_state w val True pn"

definition PortItemPin_paint :: "'a world \<Rightarrow> PortItemPin \<Rightarrow> theme_call list \<Rightarrow> exn + theme_call list" where
  \<comment> \<open>The painter receives what \<^verbatim>\<open>flow_theme.paint_PI\<close> draws.\<close>
  "PortItemPin_paint w pn painter =
     (case PortItemPin_port w pn of
        Inl e \<Rightarrow> Inl e
      | Inr None \<Rightarrow> Inr painter
      | Inr (Some p) \<Rightarrow> Inr (painter @ [paint_PI p (pin_state pn)]))"

definition PortItem_update :: "'a world \<Rightarrow> PortItem \<Rightarrow> theme_call list \<Rightarrow> exn + theme_call list" where
  \<comment> \<open>The list receives the call of \<^verbatim>\<open>flow_theme.setup_PI_label\<close>.\<close>
  "PortItem_update w it calls =
     (case PortItem_port w it of
        Inl e \<Rightarrow> Inl e
      | Inr None \<Rightarrow> Inr calls
      | Inr (Some p) \<Rightarrow> Inr (calls @ [setup_PI_label p (pin_state (pin it))]))"

definition port_connected :: "'a world \<Rightarrow> PortItem \<Rightarrow> theme_call list \<Rightarrow> exn + PortItem \<times> theme_call list" where
  \<comment> \<open>\<^verbatim>\<open>self.pin.state = PinState.CONNECTED; self.update()\<close>\<close>
  "port_connected w it calls =
     (case state_setter w CONNECTED (pin it) of
        Inl e \<Rightarrow> Inl e
      | Inr pn \<Rightarrow>
          (case PortItem_update w (it\<lparr>pin := pn\<rparr>) calls of
             Inl e \<Rightarrow> Inl e
           | Inr calls' \<Rightarrow> Inr (it\<lparr>pin := pn\<rparr>, calls')))"

section \<open>Coordinates in floating point\<close>

text \<open>
  The coordinates of a \<^verbatim>\<open>QPointF\<close> are C doubles (IEEE 754 binary64). A finite
  double is the number \<open>m * 2 ^ e\<close> for two integers \<open>m\<close> and \<open>e\<close>. The sum of two
  doubles is their exact sum rounded to 53 significant bits: to the nearest number, and of two
  equally near ones to the one with the even mantissa. The difference is the sum with the
  negated number. The exponent is not bounded here: overflow and subnormal numbers do not
  occur in the example that uses this arithmetic.
\<close>

datatype double = Double (mantissa: int) (exponent: int)

definition round53 :: "int \<Rightarrow> int \<Rightarrow> double" where
  "round53 m e =
     (let k = bitlen \<bar>m\<bar> - 53 in
      if k \<le> 0 then Double m e
      else (let q = \<bar>m\<bar> div 2 ^ nat k; r = \<bar>m\<bar> mod 2 ^ nat k; h = 2 ^ nat (k - 1)
            in Double (sgn m * (if h < r \<or> (r = h \<and> odd q) then q + 1 else q)) (e + k)))"

definition double_add :: "double \<Rightarrow> double \<Rightarrow> double" where
  "double_add a b =
     (let e = min (exponent a) (exponent b)
      in round53 (mantissa a * 2 ^ nat (exponent a - e) + mantissa b * 2 ^ nat (exponent b - e)) e)"

definition double_neg :: "double \<Rightarrow> double" where
  "double_neg a = Double (- mantissa a) (exponent a)"

instantiation double :: "{plus, minus}"
begin

definition plus_double :: "double \<Rightarrow> double \<Rightarrow> double" where
  "plus_double a b = double_add a b"

definition minus_double :: "double \<Rightarrow> double \<Rightarrow> double" where
  "minus_double a b = double_add a (double_neg b)"

instance ..

end

text \<open>
  Two doubles are the same number: their mantissas agree once both are written with the
  smaller of the two exponents.
\<close>

definition same_number :: "double \<Rightarrow> double \<Rightarrow> bool" where
  "same_number a b =
     (let e = min (exponent a) (exponent b)
      in mantissa a * 2 ^ nat (exponent a - e) = mantissa b * 2 ^ nat (exponent b - e))"

section \<open>Example states\<close>

definition empty_world :: "int world" where
  "empty_world =
     \<lparr>any_cmd_active = False, err_log = [], traceback_log = [], emitted = [],
      flow_nodes = [], flow_conns = [], node_inputs = (\<lambda>n. []), node_outputs = (\<lambda>n. []),
      next_id = 0, view_drawings = [], current_selected = [],
      item_pos = (\<lambda>i. QPointF 0 0), item_str = (\<lambda>i. ''item''),
      drawing_call = (\<lambda>d. Inl (Exception ''TypeError'')),
      data_store = (\<lambda>r. \<lparr>data_nodes = [], data_connections = [], data_drawings = []\<rparr>)\<rparr>"

definition abc_world :: "int world" where
  \<comment> \<open>The scenario of the specification: the nodes A, B, C (1, 2, 3) with the connections
      A to B and B to C.\<close>
  "abc_world =
     empty_world
       \<lparr>flow_nodes := [1, 2, 3],
        flow_conns := [(NodeOutput 1 0, NodeInput 2 0), (NodeOutput 2 0, NodeInput 3 0)],
        node_inputs := (\<lambda>n. if n = 2 then [NodeInput 2 0] else if n = 3 then [NodeInput 3 0] else []),
        node_outputs := (\<lambda>n. if n = 1 then [NodeOutput 1 0] else if n = 2 then [NodeOutput 2 0] else []),
        next_id := 4\<rparr>"

definition float_world :: "double world" where
  \<comment> \<open>An empty flow with coordinates in floating point; every item is at (0.1, 0), where 0.1
      is the double 3602879701896397 * 2 ^ -55.\<close>
  "float_world =
     \<lparr>any_cmd_active = False, err_log = [], traceback_log = [], emitted = [],
      flow_nodes = [], flow_conns = [], node_inputs = (\<lambda>n. []), node_outputs = (\<lambda>n. []),
      next_id = 0, view_drawings = [], current_selected = [],
      item_pos = (\<lambda>i. QPointF (Double 3602879701896397 (- 55)) (Double 0 0)),
      item_str = (\<lambda>i. ''item''),
      drawing_call = (\<lambda>d. Inl (Exception ''TypeError'')),
      data_store = (\<lambda>r. \<lparr>data_nodes = [], data_connections = [], data_drawings = []\<rparr>)\<rparr>"

definition failing_class :: node_class where
  "failing_class = \<lparr>class_inputs = 1, class_outputs = 1, class_init = Some (Exception ''RuntimeError'')\<rparr>"

definition clip_world :: "int world" where
  \<comment> \<open>The data dictionary 0 describes two nodes, a connection from the first to the second,
      and a drawing.\<close>
  "clip_world =
     empty_world
       \<lparr>data_store := (\<lambda>r. if r = 0
          then \<lparr>data_nodes = [\<lparr>pos_x = 10, pos_y = 20, data_inputs = 1, data_outputs = 1\<rparr>,
                               \<lparr>pos_x = 30, pos_y = 40, data_inputs = 1, data_outputs = 1\<rparr>],
                data_connections = [\<lparr>parent_node_index = 0, output_port_index = 0,
                                     connected_node = 1, connected_input_port_index = 0\<rparr>],
                data_drawings = [\<lparr>pos_x = 5, pos_y = 6\<rparr>]\<rparr>
          else \<lparr>data_nodes = [], data_connections = [], data_drawings = []\<rparr>)\<rparr>"

section \<open>Notions used to state the properties\<close>

text \<open>
  The invariants of the graph model that the analysis of \<^verbatim>\<open>RemoveComponentsCommand\<close>
  relies on: the two ports of a connection are listed by their nodes, an input has at most
  one connection, and the ports that a node of \<open>ns\<close> lists are its own.
\<close>

definition flow_consistent :: "'a world \<Rightarrow> nat list \<Rightarrow> bool" where
  "flow_consistent w ns \<longleftrightarrow>
     (\<forall>c\<in>set (flow_conns w).
        fst c \<in> set (node_outputs w (port_node (fst c))) \<and>
        snd c \<in> set (node_inputs w (port_node (snd c))) \<and>
        (\<forall>c'\<in>set (flow_conns w). snd c' = snd c \<longrightarrow> fst c' = fst c)) \<and>
     (\<forall>n\<in>set ns.
        (\<forall>p\<in>set (node_inputs w n). port_node p = n) \<and>
        (\<forall>p\<in>set (node_outputs w n). port_node p = n))"

text \<open>
  The connections that the first loop of the constructor records (\<open>selected_outside\<close>), the
  ones that the loops over the ports of the nodes record (\<open>via_inputs\<close>, \<open>via_outputs\<close>,
  \<open>via_nodes\<close>), and the live connections with both endpoint nodes among \<open>ns\<close>
  (\<open>inside\<close>), respectively with exactly one of them, as the specification words it.
\<close>

definition via_inputs :: "'a world \<Rightarrow> nat list \<Rightarrow> port list \<Rightarrow> bool \<Rightarrow> ConnectionInfo set" where
  "via_inputs w ns ins inside =
     {ConnectionInfo cp i | cp i. i \<in> set ins \<and> connected_output w i = Some cp \<and> (port_node cp \<in> set ns) = inside}"

definition via_outputs :: "'a world \<Rightarrow> nat list \<Rightarrow> port list \<Rightarrow> bool \<Rightarrow> ConnectionInfo set" where
  "via_outputs w ns outs inside =
     {ConnectionInfo out cp | out cp. out \<in> set outs \<and> (out, cp) \<in> set (flow_conns w) \<and> (port_node cp \<in> set ns) = inside}"

definition via_nodes :: "'a world \<Rightarrow> nat list \<Rightarrow> nat list \<Rightarrow> bool \<Rightarrow> ConnectionInfo set" where
  "via_nodes w ns ms inside =
     (\<Union>n\<in>set ms. via_inputs w ns (node_inputs w n) inside \<union> via_outputs w ns (node_outputs w n) inside)"

definition selected_outside :: "nat list \<Rightarrow> item list \<Rightarrow> ConnectionInfo set" where
  "selected_outside ns its = {ci. ConnectionItem ci \<in> set its \<and> port_node (out_port ci) \<notin> set ns}"

definition live_conns :: "'a world \<Rightarrow> nat list \<Rightarrow> bool \<Rightarrow> ConnectionInfo set" where
  "live_conns w ns inside =
     {ConnectionInfo out inp | out inp. (out, inp) \<in> set (flow_conns w) \<and>
        (if inside then port_node out \<in> set ns \<and> port_node inp \<in> set ns
         else (port_node out \<in> set ns) \<noteq> (port_node inp \<in> set ns))}"

text \<open>
  The two ports that a \<^verbatim>\<open>ConnectionInfo\<close> describes, as a connection of the flow.
\<close>

definition endpoints :: "ConnectionInfo \<Rightarrow> port \<times> port" where
  "endpoints ci = (out_port ci, inp_port ci)"

text \<open>
  One \<^verbatim>\<open>undo_()\<close> followed by one \<^verbatim>\<open>redo_()\<close> of a command, called
  directly; an exception of either call is caught by the caller, the state it left is kept.
\<close>

definition undo_redo :: "'a::{plus,minus} command \<times> 'a world \<Rightarrow> 'a command \<times> 'a world" where
  "undo_redo s = (let s1 = final (undo_impl (fst s) (snd s)) in final (redo_impl (fst s1) (snd s1)))"

text \<open>
  What the inverse law compares: the nodes of the flow, its connections and the drawings
  of the view, each with the number of times it occurs, and the position of every item.
\<close>

definition graph_state ::
  "'a world \<Rightarrow> nat multiset \<times> (port \<times> port) multiset \<times> nat multiset \<times> (item \<Rightarrow> 'a QPointF)" where
  "graph_state w = (mset (flow_nodes w), mset (flow_conns w), mset (view_drawings w), item_pos w)"

text \<open>
  Where one \<^verbatim>\<open>undo_()\<close> followed by one \<^verbatim>\<open>redo_()\<close> of a
  \<^verbatim>\<open>MoveComponentsCommand\<close> take an item of its list that is at \<open>p\<close>:
  \<^verbatim>\<open>undo_\<close> moves the group to \<^verbatim>\<open>p_from\<close> and \<^verbatim>\<open>redo_\<close> to
  \<^verbatim>\<open>p_to - last_item_group_pos\<close>, where \<^verbatim>\<open>last_item_group_pos\<close> is
  \<^verbatim>\<open>p_from\<close> then.
\<close>

definition move_cycle :: "'a::{plus,minus} QPointF \<Rightarrow> 'a QPointF \<Rightarrow> 'a QPointF \<Rightarrow> 'a QPointF" where
  "move_cycle p_from p_to p = QPointF_add (QPointF_add p p_from) (QPointF_sub p_to p_from)"

text \<open>
  The commands whose cycles of undo and redo give back the state that the activation has
  left: the concrete commands other than a move (which is treated apart), where the
  \<^verbatim>\<open>ConnectionInfo\<close> of a \<^verbatim>\<open>ConnectPortsCommand\<close> is the one of its two
  ports (as its constructor sets it), and the activation of a paste does not raise.
\<close>

definition inverse_law_applies :: "'a::{plus,minus} command \<Rightarrow> 'a world \<Rightarrow> bool" where
  "inverse_law_applies c w =
     (case body c of
        Delegate on_undo on_redo \<Rightarrow> False
      | MoveComponents its pf pt lpos \<Rightarrow> False
      | ConnectPorts silent out inp ci conn is_connecting \<Rightarrow> ci = connection_info (out, inp)
      | Paste ref ns cs ds \<Rightarrow> raised (activate False c w) = None
      | _ \<Rightarrow> True)"

text \<open>
  The invariant of a command and a state between two cycles of undo and redo: what the
  command is going to remove is there.
\<close>

definition settled :: "'a command \<times> 'a world \<Rightarrow> bool" where
  "settled s =
     (case body (fst s) of
        Delegate on_undo on_redo \<Rightarrow> False
      | MoveComponents its pf pt lpos \<Rightarrow> False
      | PlaceNode cls node pos prev \<Rightarrow>
          (case node of Some n \<Rightarrow> n \<in> set (flow_nodes (snd s)) | None \<Rightarrow> class_init cls \<noteq> None)
      | PlaceDrawing d place_pos obj_pos prev \<Rightarrow> d \<in> set (view_drawings (snd s))
      | SelectComponents its prev \<Rightarrow> True
      | RemoveComponents its sel silent broken internal node_items nodes drawings \<Rightarrow> True
      | ConnectPorts silent out inp ci conn is_connecting \<Rightarrow>
          is_connecting \<longrightarrow> conn \<noteq> None \<and> endpoints ci \<in> set (flow_conns (snd s))
      | Paste ref ns cs ds \<Rightarrow>
          (if ns = [] \<and> cs = [] \<and> ds = []
           then data_nodes (data_store (snd s) ref) = [] \<and>
                data_connections (data_store (snd s) ref) = [] \<and>
                data_drawings (data_store (snd s) ref) = []
           else mset ns \<subseteq># mset (flow_nodes (snd s)) \<and> mset cs \<subseteq># mset (flow_conns (snd s)) \<and>
                mset ds \<subseteq># mset (view_drawings (snd s))))"

section \<open>Calls made from inside a running command\<close>

text \<open>
  A callback that calls \<^verbatim>\<open>c.redo()\<close>, respectively \<^verbatim>\<open>c.undo()\<close>, on another
  command \<open>c\<close>: what the forward or inverse logic of a \<^verbatim>\<open>DelegateCommand\<close> does
  when it re-enters the command system.
\<close>

definition calls_redo :: "'a::{plus,minus} command \<Rightarrow> 'a world \<Rightarrow> (unit, 'a world) outcome" where
  "calls_redo c w =
     (case redo c w of Returns u s \<Rightarrow> Returns () (snd s) | Raises e s \<Rightarrow> Raises e (snd s))"

definition calls_undo :: "'a::{plus,minus} command \<Rightarrow> 'a world \<Rightarrow> (unit, 'a world) outcome" where
  "calls_undo c w =
     (case undo c w of Returns u s \<Rightarrow> Returns () (snd s) | Raises e s \<Rightarrow> Raises e (snd s))"

section \<open>Properties\<close>

subsection \<open>The scenario of the specification\<close>

lemma abc_remove_B:
  "RemoveComponentsCommand abc_world [NodeItem 2] False =
     \<lparr>activated = False, text_of = ''Delete item'',
      body = RemoveComponents [NodeItem 2] [] False
               [ConnectionInfo (NodeOutput 1 0) (NodeInput 2 0),
                ConnectionInfo (NodeOutput 2 0) (NodeInput 3 0)]
               [] [NodeItem 2] [2] []\<rparr>"
  by (simp add: RemoveComponentsCommand_def FlowUndoCommand_init_def setText_def
      undo_text_multi_def scan_selected_def scan_node_def scan_input_def scan_output_def
      classify_def set_add_def connected_output_def connected_inputs_def connection_info_def
      abc_world_def empty_world_def Let_def)

subsection \<open>The guard of FlowUndoCommand\<close>

lemma guard_off: "\<not> any_cmd_active w \<Longrightarrow> w\<lparr>any_cmd_active := False\<rparr> = w"
  by (cases w) simp

lemma rejected_redo:
  "any_cmd_active w \<Longrightarrow> redo c w = Returns () (c, if activated c then write_err redo_msg w else w)"
  by (simp add: redo_def)

lemma rejected_undo: "any_cmd_active w \<Longrightarrow> undo c w = Returns () (c, write_err undo_msg w)"
  by (simp add: undo_def)

text \<open>
  Claim C3 (the guard is released on every exit of \<^verbatim>\<open>redo()\<close> and
  \<^verbatim>\<open>undo()\<close>, also when the inner logic raises) does not hold of the code: the
  assignment that clears the guard follows the call of \<^verbatim>\<open>redo_()\<close> without a
  \<^verbatim>\<open>finally\<close>. A \<^verbatim>\<open>PlaceNodeCommand\<close> whose node class raises in its
  constructor is activated while no command is active: \<^verbatim>\<open>redo()\<close> raises, the guard
  is still set afterwards, and the next \<^verbatim>\<open>undo()\<close> of any command is rejected
  although no command is running.
\<close>

theorem guard_left_set_when_redo_raises:
  "\<not> any_cmd_active empty_world \<and>
   raised (activate False (PlaceNodeCommand empty_world failing_class (QPointF 0 0)) empty_world)
     = Some (Exception ''RuntimeError'') \<and>
   any_cmd_active
     (snd (final (activate False (PlaceNodeCommand empty_world failing_class (QPointF 0 0)) empty_world))) \<and>
   err_log (snd (final (undo (SelectComponentsCommand empty_world [] [])
     (snd (final (activate False (PlaceNodeCommand empty_world failing_class (QPointF 0 0)) empty_world))))))
     = [undo_msg]"
  by (simp add: activate_def redo_def undo_def redo_impl_def PlaceNodeCommand_def
      FlowUndoCommand_init_def PlaceNode_redo_impl_def PlaceNode_redo_with_def create_node_def
      failing_class_def empty_world_def print_exc_def write_err_def)

text \<open>
  Claim C4, as stated, says that every call of \<^verbatim>\<open>redo()\<close> made while the guard is set
  is rejected with a diagnostic. A command that has not been activated returns from
  \<^verbatim>\<open>redo()\<close> before the guard is looked at: nothing is written.
\<close>

theorem silent_rejection_counterexample:
  "any_cmd_active (empty_world\<lparr>any_cmd_active := True\<rparr>) \<and>
   \<not> activated (SelectComponentsCommand empty_world [NodeItem 1] []) \<and>
   err_log (snd (final (redo (SelectComponentsCommand empty_world [NodeItem 1] [])
                             (empty_world\<lparr>any_cmd_active := True\<rparr>)))) = []"
  by (simp add: redo_def SelectComponentsCommand_def FlowUndoCommand_init_def setText_def
      empty_world_def)

text \<open>
  Claim C4, amended. While the guard is set, \<^verbatim>\<open>undo()\<close> of any command and
  \<^verbatim>\<open>redo()\<close> of an activated command only write their diagnostic, and
  \<^verbatim>\<open>redo()\<close> of a command that is not activated does nothing at all: the command and
  the rest of the state are unchanged, so the inner logic has not run. For every outer
  command, whatever its logic does: a call of its \<^verbatim>\<open>redo()\<close> or
  \<^verbatim>\<open>undo()\<close> that starts while the guard is clear has the guard clear whenever
  it returns, and the logic it runs (\<^verbatim>\<open>redo_()\<close> when the command is activated,
  \<^verbatim>\<open>undo_()\<close>) starts in the state with the guard set, so that a call it makes
  there is one of the rejected calls above. In particular, for an activated
  \<^verbatim>\<open>DelegateCommand\<close> whose callback is one such call on a command \<open>c\<close> and
  nothing else, the outer call returns and the state differs from the one before only by what
  the rejected call has written.
\<close>

theorem reentrant_call_rejected:
  "(any_cmd_active w \<longrightarrow>
      undo c w = Returns () (c, write_err undo_msg w) \<and>
      redo c w = Returns () (c, if activated c then write_err redo_msg w else w)) \<and>
   (\<not> any_cmd_active w \<longrightarrow>
      (\<forall>s. redo outer w = Returns () s \<longrightarrow> \<not> any_cmd_active (snd s)) \<and>
      (\<forall>s. undo outer w = Returns () s \<longrightarrow> \<not> any_cmd_active (snd s)) \<and>
      (activated outer \<longrightarrow>
         redo outer w =
           (case redo_impl outer (w\<lparr>any_cmd_active := True\<rparr>) of
              Returns x s \<Rightarrow> Returns () (fst s, (snd s)\<lparr>any_cmd_active := False\<rparr>)
            | Raises e s \<Rightarrow> Raises e s)) \<and>
      undo outer w =
        (case undo_impl outer (w\<lparr>any_cmd_active := True\<rparr>) of
           Returns x s \<Rightarrow> Returns () (fst s, (snd s)\<lparr>any_cmd_active := False\<rparr>)
         | Raises e s \<Rightarrow> Raises e s) \<and>
      (activated outer \<and> body outer = Delegate u (calls_redo c) \<longrightarrow>
         redo outer w = Returns () (outer, if activated c then write_err redo_msg w else w)) \<and>
      (activated outer \<and> body outer = Delegate u (calls_undo c) \<longrightarrow>
         redo outer w = Returns () (outer, write_err undo_msg w)) \<and>
      (body outer = Delegate (calls_redo c) r \<longrightarrow>
         undo outer w = Returns () (outer, if activated c then write_err redo_msg w else w)) \<and>
      (body outer = Delegate (calls_undo c) r \<longrightarrow>
         undo outer w = Returns () (outer, write_err undo_msg w)))"
proof -
  have rejected: "any_cmd_active w \<longrightarrow>
      undo c w = Returns () (c, write_err undo_msg w) \<and>
      redo c w = Returns () (c, if activated c then write_err redo_msg w else w)"
    by (simp add: redo_def undo_def)
  have cleared: "\<not> any_cmd_active w \<longrightarrow>
      (\<forall>s. redo outer w = Returns () s \<longrightarrow> \<not> any_cmd_active (snd s)) \<and>
      (\<forall>s. undo outer w = Returns () s \<longrightarrow> \<not> any_cmd_active (snd s))"
    by (auto simp: redo_def undo_def split: if_splits outcome.splits)
  have runs: "\<not> any_cmd_active w \<longrightarrow>
      (activated outer \<longrightarrow>
         redo outer w =
           (case redo_impl outer (w\<lparr>any_cmd_active := True\<rparr>) of
              Returns x s \<Rightarrow> Returns () (fst s, (snd s)\<lparr>any_cmd_active := False\<rparr>)
            | Raises e s \<Rightarrow> Raises e s)) \<and>
      undo outer w =
        (case undo_impl outer (w\<lparr>any_cmd_active := True\<rparr>) of
           Returns x s \<Rightarrow> Returns () (fst s, (snd s)\<lparr>any_cmd_active := False\<rparr>)
         | Raises e s \<Rightarrow> Raises e s)"
    by (simp add: redo_def undo_def split: outcome.splits prod.splits)
  have nested: "\<not> any_cmd_active w \<longrightarrow>
      (activated outer \<and> body outer = Delegate u (calls_redo c) \<longrightarrow>
         redo outer w = Returns () (outer, if activated c then write_err redo_msg w else w)) \<and>
      (activated outer \<and> body outer = Delegate u (calls_undo c) \<longrightarrow>
         redo outer w = Returns () (outer, write_err undo_msg w)) \<and>
      (body outer = Delegate (calls_redo c) r \<longrightarrow>
         undo outer w = Returns () (outer, if activated c then write_err redo_msg w else w)) \<and>
      (body outer = Delegate (calls_undo c) r \<longrightarrow>
         undo outer w = Returns () (outer, write_err undo_msg w))"
    by (simp add: redo_def undo_def undo_impl_def redo_impl_def call_delegate_def calls_redo_def
        calls_undo_def write_err_def guard_off)
  from rejected cleared runs nested show ?thesis by blast
qed

text \<open>
  Witness for C4. The command that removes node B of the scenario A, B, C is activated.
  While the guard is set, its \<^verbatim>\<open>undo()\<close> and its \<^verbatim>\<open>redo()\<close> write their
  diagnostic and leave the rest as it is. An activated \<^verbatim>\<open>DelegateCommand\<close> whose
  forward logic calls \<^verbatim>\<open>redo()\<close> on that command is redone while the guard is
  clear: node B is still there afterwards, one diagnostic has been written and the guard is
  clear.
\<close>

theorem reentrant_call_rejected_witness:
  "any_cmd_active (abc_world\<lparr>any_cmd_active := True\<rparr>) \<and>
   undo ((RemoveComponentsCommand abc_world [NodeItem 2] False)\<lparr>activated := True\<rparr>)
        (abc_world\<lparr>any_cmd_active := True\<rparr>)
     = Returns () ((RemoveComponentsCommand abc_world [NodeItem 2] False)\<lparr>activated := True\<rparr>,
                   write_err undo_msg (abc_world\<lparr>any_cmd_active := True\<rparr>)) \<and>
   redo ((RemoveComponentsCommand abc_world [NodeItem 2] False)\<lparr>activated := True\<rparr>)
        (abc_world\<lparr>any_cmd_active := True\<rparr>)
     = Returns () ((RemoveComponentsCommand abc_world [NodeItem 2] False)\<lparr>activated := True\<rparr>,
                   write_err redo_msg (abc_world\<lparr>any_cmd_active := True\<rparr>)) \<and>
   flow_nodes (write_err undo_msg (abc_world\<lparr>any_cmd_active := True\<rparr>)) = [1, 2, 3] \<and>
   \<not> any_cmd_active abc_world \<and>
   activated ((DelegateCommand ''outer'' (\<lambda>w. Returns () w)
      (calls_redo ((RemoveComponentsCommand abc_world [NodeItem 2] False)\<lparr>activated := True\<rparr>)))
        \<lparr>activated := True\<rparr>) \<and>
   redo ((DelegateCommand ''outer'' (\<lambda>w. Returns () w)
      (calls_redo ((RemoveComponentsCommand abc_world [NodeItem 2] False)\<lparr>activated := True\<rparr>)))
        \<lparr>activated := True\<rparr>) abc_world
     = Returns ()
        ((DelegateCommand ''outer'' (\<lambda>w. Returns () w)
           (calls_redo ((RemoveComponentsCommand abc_world [NodeItem 2] False)\<lparr>activated := True\<rparr>)))
             \<lparr>activated := True\<rparr>,
         write_err redo_msg abc_world) \<and>
   flow_nodes (write_err redo_msg abc_world) = [1, 2, 3] \<and>
   err_log (write_err redo_msg abc_world) = [redo_msg] \<and>
   \<not> any_cmd_active (write_err redo_msg abc_world)"
proof -
  let ?c = "(RemoveComponentsCommand abc_world [NodeItem 2] False)\<lparr>activated := True\<rparr>"
  let ?outer = "(DelegateCommand ''outer'' (\<lambda>w. Returns () w) (calls_redo ?c))\<lparr>activated := True\<rparr>"
  have g1: "any_cmd_active (abc_world\<lparr>any_cmd_active := True\<rparr>)" by simp
  have g0: "\<not> any_cmd_active abc_world" by (simp add: abc_world_def empty_world_def)
  have act: "activated ?outer" by simp
  have b: "body ?outer = Delegate (\<lambda>w. Returns () w) (calls_redo ?c)"
    by (simp add: DelegateCommand_def FlowUndoCommand_init_def setText_def)
  note inner = reentrant_call_rejected[where w = "abc_world\<lparr>any_cmd_active := True\<rparr>" and c = ?c,
      THEN conjunct1, rule_format, OF g1]
  note outer = reentrant_call_rejected[where w = abc_world and outer = ?outer and c = ?c
      and u = "\<lambda>w. Returns () w", THEN conjunct2, rule_format, OF g0]
  note nested = outer[THEN conjunct2, THEN conjunct2, THEN conjunct2, THEN conjunct2,
      THEN conjunct1, rule_format, OF conjI[OF act b]]
  note cleared = outer[THEN conjunct1, rule_format, OF nested[simplified]]
  have logs: "flow_nodes (write_err undo_msg (abc_world\<lparr>any_cmd_active := True\<rparr>)) = [1, 2, 3]"
    "flow_nodes (write_err redo_msg abc_world) = [1, 2, 3]"
    "err_log (write_err redo_msg abc_world) = [redo_msg]"
    by (simp_all add: write_err_def abc_world_def empty_world_def)
  from g1 g0 act inner nested cleared logs show ?thesis by simp
qed

text \<open>
  Claim C7, as stated, says that \<^verbatim>\<open>undo()\<close> of a command that has not been activated
  leaves the graph unchanged. \<^verbatim>\<open>undo()\<close> does not look at the activation flag: the
  command that removes node B of the scenario A, B, C, never activated and never redone,
  adds B to the flow a second time when its \<^verbatim>\<open>undo()\<close> is called.
\<close>

theorem undo_not_gated_counterexample:
  "\<not> activated (RemoveComponentsCommand abc_world [NodeItem 2] False) \<and>
   flow_nodes abc_world = [1, 2, 3] \<and>
   flow_nodes (snd (final (undo (RemoveComponentsCommand abc_world [NodeItem 2] False) abc_world)))
     = [1, 2, 3, 2]"
  by (simp add: abc_remove_B undo_def undo_impl_def RemoveComponents_undo_impl_def
      restore_connections_def connect_from_info_def add_connection_def add_node_def
      select_items_def add_drawing_def Let_def)
     (simp add: abc_world_def empty_world_def)

text \<open>
  Claim C7, amended. \<^verbatim>\<open>redo()\<close> of a command that has not been activated changes
  neither the command nor the state. \<^verbatim>\<open>undo()\<close> is not gated by the activation
  flag: when no command is active it runs the inverse logic and clears the guard, whatever
  the flag is. \<^verbatim>\<open>activate(silent=True)\<close> only sets the flag;
  \<^verbatim>\<open>activate(silent=False)\<close> sets the flag and calls \<^verbatim>\<open>redo()\<close>, which runs
  the forward logic when no command is active and is rejected with the diagnostic otherwise.
\<close>

theorem activation_gates_redo_only:
  "(\<not> activated c \<longrightarrow> redo c w = Returns () (c, w)) \<and>
   (\<not> any_cmd_active w \<longrightarrow>
      snd (final (undo c w)) =
        (case undo_impl c (w\<lparr>any_cmd_active := True\<rparr>) of
           Returns u s \<Rightarrow> (snd s)\<lparr>any_cmd_active := False\<rparr>
         | Raises e s \<Rightarrow> snd s)) \<and>
   snd (final (undo (c\<lparr>activated := b\<rparr>) w)) = snd (final (undo c w)) \<and>
   activate True c w = Returns () (c\<lparr>activated := True\<rparr>, w) \<and>
   (\<not> any_cmd_active w \<longrightarrow>
      activate False c w =
        (case redo_impl (c\<lparr>activated := True\<rparr>) (w\<lparr>any_cmd_active := True\<rparr>) of
           Returns u s \<Rightarrow> Returns () (fst s, (snd s)\<lparr>any_cmd_active := False\<rparr>)
         | Raises e s \<Rightarrow> Raises e s)) \<and>
   (any_cmd_active w \<longrightarrow>
      activate False c w = Returns () (c\<lparr>activated := True\<rparr>, write_err redo_msg w))"
proof -
  have undo_flag: "snd (final (undo (c\<lparr>activated := b\<rparr>) w)) = snd (final (undo c w))"
    by (cases "body c")
       (auto simp: undo_def undo_impl_def call_delegate_def MoveComponents_undo_impl_def
          PlaceNode_undo_impl_def PlaceDrawing_undo_impl_def RemoveComponents_undo_impl_def
          ConnectPorts_undo_impl_def Paste_undo_impl_def Let_def
          split: outcome.splits option.splits)
  have undo_runs: "\<not> any_cmd_active w \<Longrightarrow>
      snd (final (undo c w)) =
        (case undo_impl c (w\<lparr>any_cmd_active := True\<rparr>) of
           Returns u s \<Rightarrow> (snd s)\<lparr>any_cmd_active := False\<rparr>
         | Raises e s \<Rightarrow> snd s)"
    by (auto simp: undo_def split: outcome.splits)
  have act: "\<not> any_cmd_active w \<Longrightarrow>
      activate False c w =
        (case redo_impl (c\<lparr>activated := True\<rparr>) (w\<lparr>any_cmd_active := True\<rparr>) of
           Returns u s \<Rightarrow> Returns () (fst s, (snd s)\<lparr>any_cmd_active := False\<rparr>)
         | Raises e s \<Rightarrow> Raises e s)"
    by (auto simp: activate_def redo_def split: outcome.splits)
  show ?thesis
    using undo_flag undo_runs act by (simp add: redo_def activate_def)
qed

text \<open>
  Witness for C7: the command that removes node B of the scenario A, B, C. Before its
  activation \<^verbatim>\<open>redo()\<close> leaves the three nodes; \<^verbatim>\<open>activate(silent=True)\<close>
  leaves them too; \<^verbatim>\<open>activate(silent=False)\<close> removes B.
\<close>

theorem activation_gates_redo_only_witness:
  "\<not> activated (RemoveComponentsCommand abc_world [NodeItem 2] False) \<and>
   \<not> any_cmd_active abc_world \<and>
   flow_nodes (snd (final (redo (RemoveComponentsCommand abc_world [NodeItem 2] False) abc_world)))
     = [1, 2, 3] \<and>
   flow_nodes (snd (final (activate True (RemoveComponentsCommand abc_world [NodeItem 2] False) abc_world)))
     = [1, 2, 3] \<and>
   flow_nodes (snd (final (activate False (RemoveComponentsCommand abc_world [NodeItem 2] False) abc_world)))
     = [1, 3]"
  using activation_gates_redo_only
    [where c = "RemoveComponentsCommand abc_world [NodeItem 2] False" and w = abc_world
       and b = True]
  by (simp add: abc_remove_B redo_impl_def RemoveComponents_redo_impl_def
      remove_connections_def disconnect_from_info_def remove_connection_def remove_node_def
      remove_drawing_def Let_def)
     (simp add: abc_world_def empty_world_def)

subsection \<open>PlaceNodeCommand: a failing node creation\<close>

text \<open>
  Claim C8. Whatever \<^verbatim>\<open>flow.add_node\<close> and \<^verbatim>\<open>flow.create_node\<close> do:
  \<^verbatim>\<open>redo_\<close> raises exactly when the operation of the flow it calls raised (re-adding
  the existing node, or else creating one), and it raises the same exception; when the
  operation raised \<open>e\<close> in the state \<open>w1\<close>, the traceback of \<open>e\<close> has been printed and
  the command is as it was. With the flow of the model, \<^verbatim>\<open>redo_\<close> of the command raises
  exactly when a node has to be created and the constructor of the node class raises.
\<close>

theorem place_node_redo_reraises:
  "raised (PlaceNode_redo_with flow_add_node flow_create_node c cls node pos prev w) =
     (case node of Some n \<Rightarrow> raised (flow_add_node n w) | None \<Rightarrow> raised (flow_create_node cls w)) \<and>
   ((case node of
       Some n \<Rightarrow> flow_add_node n w = Raises e w1
     | None \<Rightarrow> flow_create_node cls w = Raises e w1) \<longrightarrow>
      PlaceNode_redo_with flow_add_node flow_create_node c cls node pos prev w
        = Raises e (c, print_exc e w1) \<and>
      traceback_log (print_exc e w1) = traceback_log w1 @ [e]) \<and>
   (body c = PlaceNode cls node pos prev \<longrightarrow>
      raised (redo_impl c w) = (case node of Some n \<Rightarrow> None | None \<Rightarrow> class_init cls))"
  by (auto simp: PlaceNode_redo_with_def redo_impl_def PlaceNode_redo_impl_def create_node_def
      new_node_def print_exc_def Let_def split: option.splits outcome.splits)

text \<open>
  Witness for C8: a node class whose constructor raises \<^verbatim>\<open>RuntimeError\<close>.
\<close>

theorem place_node_redo_reraises_witness:
  "create_node failing_class empty_world = Raises (Exception ''RuntimeError'') empty_world \<and>
   redo_impl (PlaceNodeCommand empty_world failing_class (QPointF 0 0)) empty_world
     = Raises (Exception ''RuntimeError'')
         (PlaceNodeCommand empty_world failing_class (QPointF 0 0),
          print_exc (Exception ''RuntimeError'') empty_world) \<and>
   traceback_log (print_exc (Exception ''RuntimeError'') empty_world) = [Exception ''RuntimeError'']"
  using place_node_redo_reraises
    [where flow_add_node = "\<lambda>n w. Returns () (add_node n w)" and flow_create_node = create_node
       and c = "PlaceNodeCommand empty_world failing_class (QPointF 0 0)"
       and cls = failing_class and node = None and pos = "QPointF 0 0" and prev = "[]"
       and w = empty_world and e = "Exception ''RuntimeError''" and ?w1.0 = empty_world]
  by (simp add: create_node_def failing_class_def redo_impl_def PlaceNode_redo_impl_def
      PlaceNodeCommand_def FlowUndoCommand_init_def empty_world_def print_exc_def)

subsection \<open>Ports that are no longer in their list\<close>

lemma missing_port_is_None:
  "int (length (port_list w (pin_port_list pn))) \<le> port_index pn \<Longrightarrow> PortItemPin_port w pn = Inr None"
  "int (length (port_list w (item_port_list it))) \<le> item_port_index it \<Longrightarrow> PortItem_port w it = Inr None"
  by (simp_all add: PortItemPin_port_def PortItem_port_def port_at_def)

lemma missing_port_paint:
  "int (length (port_list w (pin_port_list pn))) \<le> port_index pn \<Longrightarrow>
   PortItemPin_paint w pn painter = Inr painter"
  by (simp add: PortItemPin_paint_def missing_port_is_None)

lemma missing_port_update:
  "int (length (port_list w (item_port_list it))) \<le> item_port_index it \<Longrightarrow>
   PortItem_update w it calls = Inr calls"
  by (simp add: PortItem_update_def missing_port_is_None)

lemma missing_port_set_state:
  "int (length (port_list w (pin_port_list pn))) \<le> port_index pn \<Longrightarrow>
   set_state w val protect pn = Inl (Exception ''AttributeError'')"
  by (simp add: set_state_def missing_port_is_None is_connected_def)

text \<open>
  Claim C9 (a port that is no longer in its list is \<^verbatim>\<open>None\<close>, and
  \<^verbatim>\<open>PortItem.update\<close>, \<^verbatim>\<open>PortItemPin.paint\<close> and the setters of the pin state
  return without effect) holds of the property, of \<^verbatim>\<open>update\<close> and of
  \<^verbatim>\<open>paint\<close>, and fails for the setters: \<^verbatim>\<open>set_state\<close> hands the missing port
  to \<^verbatim>\<open>is_connected\<close>, which reads \<^verbatim>\<open>port.node\<close>. Here node 1 has lost its
  only input, and the pin still holds the index 0.
\<close>

theorem set_state_raises_on_missing_port:
  "int (length (port_list empty_world (Inputs_of 1))) \<le> 0 \<and>
   PortItemPin_port empty_world
     \<lparr>pin_port_list = Inputs_of 1, port_index = 0, pin_state = DISCONNECTED\<rparr> = Inr None \<and>
   PortItemPin_paint empty_world
     \<lparr>pin_port_list = Inputs_of 1, port_index = 0, pin_state = DISCONNECTED\<rparr> [] = Inr [] \<and>
   PortItem_update empty_world
     \<lparr>item_port_list = Inputs_of 1, item_port_index = 0,
      pin = \<lparr>pin_port_list = Inputs_of 1, port_index = 0, pin_state = DISCONNECTED\<rparr>\<rparr> [] = Inr [] \<and>
   set_state empty_world VALID True
     \<lparr>pin_port_list = Inputs_of 1, port_index = 0, pin_state = DISCONNECTED\<rparr>
     = Inl (Exception ''AttributeError'') \<and>
   set_state empty_world VALID False
     \<lparr>pin_port_list = Inputs_of 1, port_index = 0, pin_state = DISCONNECTED\<rparr>
     = Inl (Exception ''AttributeError'') \<and>
   state_setter empty_world CONNECTED
     \<lparr>pin_port_list = Inputs_of 1, port_index = 0, pin_state = DISCONNECTED\<rparr>
     = Inl (Exception ''AttributeError'') \<and>
   port_connected empty_world
     \<lparr>item_port_list = Inputs_of 1, item_port_index = 0,
      pin = \<lparr>pin_port_list = Inputs_of 1, port_index = 0, pin_state = DISCONNECTED\<rparr>\<rparr> []
     = Inl (Exception ''AttributeError'')"
  by (simp add: missing_port_is_None missing_port_paint missing_port_update
      missing_port_set_state state_setter_def port_connected_def empty_world_def)

subsection \<open>PasteCommand: the data of the caller\<close>

text \<open>
  Claim C10. Constructing a \<^verbatim>\<open>PasteCommand\<close> from the data dictionary at \<open>r\<close>
  replaces, in that very dictionary, every node descriptor and every drawing descriptor by
  the descriptor shifted by the offset (\<^verbatim>\<open>'pos x'\<close> by \<^verbatim>\<open>offset.x()\<close>,
  \<^verbatim>\<open>'pos y'\<close> by \<^verbatim>\<open>offset.y()\<close>); the command keeps the reference \<open>r\<close>, no
  copy; the other dictionaries are untouched. A second command constructed from the same
  dictionary shifts the already shifted descriptors again.
\<close>

theorem paste_shifts_callers_data:
  fixes w :: "'a::plus world"
  shows
  "body (fst (PasteCommand w r off)) = Paste r [] [] [] \<and>
   data_store (snd (PasteCommand w r off)) r =
     (data_store w r)\<lparr>data_nodes := map (shift_pos off) (data_nodes (data_store w r)),
                       data_drawings := map (shift_pos off) (data_drawings (data_store w r))\<rparr> \<and>
   data_store (snd (PasteCommand (snd (PasteCommand w r off)) r off2)) r =
     (data_store w r)
       \<lparr>data_nodes := map (shift_pos off2 \<circ> shift_pos off) (data_nodes (data_store w r)),
        data_drawings := map (shift_pos off2 \<circ> shift_pos off) (data_drawings (data_store w r))\<rparr> \<and>
   pos_x (shift_pos off d) = pos_x d + x_of off \<and>
   pos_y (shift_pos off d) = pos_y d + y_of off \<and>
   pos_x (shift_pos off2 (shift_pos off d)) = (pos_x d + x_of off) + x_of off2 \<and>
   pos_y (shift_pos off2 (shift_pos off d)) = (pos_y d + y_of off) + y_of off2 \<and>
   (r' \<noteq> r \<longrightarrow> data_store (snd (PasteCommand w r off)) r' = data_store w r')"
  by (simp add: PasteCommand_def modify_data_positions_def shift_pos_def setText_def
      FlowUndoCommand_init_def Let_def)

text \<open>
  Witness for C10: two commands constructed from the dictionary 0, each with the offset
  (1, 2). The first node descriptor, at (10, 20), ends at (12, 24), the drawing descriptor,
  at (5, 6), at (7, 10); the dictionary 1 is as before.
\<close>

theorem paste_shifts_callers_data_witness:
  "(1::nat) \<noteq> 0 \<and>
   map pos_x (data_nodes (data_store (snd (PasteCommand clip_world 0 (QPointF 1 2))) 0)) = [11, 31] \<and>
   map pos_x (data_nodes (data_store
      (snd (PasteCommand (snd (PasteCommand clip_world 0 (QPointF 1 2))) 0 (QPointF 1 2))) 0)) = [12, 32] \<and>
   map pos_y (data_nodes (data_store
      (snd (PasteCommand (snd (PasteCommand clip_world 0 (QPointF 1 2))) 0 (QPointF 1 2))) 0)) = [24, 44] \<and>
   map pos_x (data_drawings (data_store
      (snd (PasteCommand (snd (PasteCommand clip_world 0 (QPointF 1 2))) 0 (QPointF 1 2))) 0)) = [7] \<and>
   map pos_y (data_drawings (data_store
      (snd (PasteCommand (snd (PasteCommand clip_world 0 (QPointF 1 2))) 0 (QPointF 1 2))) 0)) = [10] \<and>
   data_store (snd (PasteCommand clip_world 0 (QPointF 1 2))) 1 = data_store clip_world 1"
  using paste_shifts_callers_data
    [where w = clip_world and r = 0 and off = "QPointF 1 2" and ?off2.0 = "QPointF 1 2" and r' = 1]
  by (simp add: shift_pos_def clip_world_def empty_world_def)

subsection \<open>RemoveComponentsCommand: internal and broken connections\<close>

lemma set_set_add: "set (set_add v s) = insert v (set s)"
  by (auto simp: set_add_def)

lemma distinct_set_add: "distinct s \<Longrightarrow> distinct (set_add v s)"
  by (simp add: set_add_def)

lemma connected_inputs_iff: "cp \<in> set (connected_inputs w out) \<longleftrightarrow> (out, cp) \<in> set (flow_conns w)"
  by (force simp: connected_inputs_def)

lemma find_Some_mem: "find P xs = Some x \<Longrightarrow> x \<in> set xs \<and> P x"
  by (induction xs) (auto split: if_splits)

lemma connected_output_Some: "connected_output w i = Some cp \<Longrightarrow> (cp, i) \<in> set (flow_conns w)"
  by (auto simp: connected_output_def dest!: find_Some_mem)

lemma connected_output_ex: "(o', i) \<in> set (flow_conns w) \<Longrightarrow> \<exists>cp. connected_output w i = Some cp"
  by (cases "find (\<lambda>c. snd c = i) (flow_conns w)") (auto simp: connected_output_def find_None_iff)

lemma fold_scan_input:
  "set (fst (fold (scan_input w ns) ins acc)) = set (fst acc) \<union> via_inputs w ns ins False \<and>
   set (snd (fold (scan_input w ns) ins acc)) = set (snd acc) \<union> via_inputs w ns ins True \<and>
   (distinct (fst acc) \<longrightarrow> distinct (fst (fold (scan_input w ns) ins acc))) \<and>
   (distinct (snd acc) \<longrightarrow> distinct (snd (fold (scan_input w ns) ins acc)))"
proof (induction ins arbitrary: acc)
  case Nil
  then show ?case by (simp add: via_inputs_def)
next
  case (Cons i ins)
  have step: "set (fst (scan_input w ns i acc)) = set (fst acc) \<union> via_inputs w ns [i] False"
     "set (snd (scan_input w ns i acc)) = set (snd acc) \<union> via_inputs w ns [i] True"
     "distinct (fst acc) \<longrightarrow> distinct (fst (scan_input w ns i acc))"
     "distinct (snd acc) \<longrightarrow> distinct (snd (scan_input w ns i acc))"
    by (auto simp: scan_input_def classify_def via_inputs_def set_set_add distinct_set_add connection_info_def
        split: option.splits)
  have split: "\<And>b. via_inputs w ns (i # ins) b = via_inputs w ns [i] b \<union> via_inputs w ns ins b"
    by (auto simp: via_inputs_def)
  show ?case using Cons.IH[of "scan_input w ns i acc"] step
    by (simp add: split Un_assoc)
qed

lemma fold_classify_out:
  "set (fst (fold (\<lambda>cp. classify ns cp (out, cp)) cps acc)) =
     set (fst acc) \<union> {ConnectionInfo out cp | cp. cp \<in> set cps \<and> port_node cp \<notin> set ns} \<and>
   set (snd (fold (\<lambda>cp. classify ns cp (out, cp)) cps acc)) =
     set (snd acc) \<union> {ConnectionInfo out cp | cp. cp \<in> set cps \<and> port_node cp \<in> set ns} \<and>
   (distinct (fst acc) \<longrightarrow> distinct (fst (fold (\<lambda>cp. classify ns cp (out, cp)) cps acc))) \<and>
   (distinct (snd acc) \<longrightarrow> distinct (snd (fold (\<lambda>cp. classify ns cp (out, cp)) cps acc)))"
proof (induction cps arbitrary: acc)
  case Nil
  then show ?case by simp
next
  case (Cons cp cps)
  show ?case using Cons.IH[of "classify ns cp (out, cp) acc"]
    by (auto simp: classify_def set_set_add distinct_set_add connection_info_def)
qed

lemma scan_output_sets:
  "set (fst (scan_output w ns out acc)) = set (fst acc) \<union> via_outputs w ns [out] False \<and>
   set (snd (scan_output w ns out acc)) = set (snd acc) \<union> via_outputs w ns [out] True \<and>
   (distinct (fst acc) \<longrightarrow> distinct (fst (scan_output w ns out acc))) \<and>
   (distinct (snd acc) \<longrightarrow> distinct (snd (scan_output w ns out acc)))"
  using fold_classify_out[of ns out "connected_inputs w out" acc]
  by (auto simp: scan_output_def via_outputs_def connected_inputs_iff)

lemma fold_scan_output:
  "set (fst (fold (scan_output w ns) outs acc)) = set (fst acc) \<union> via_outputs w ns outs False \<and>
   set (snd (fold (scan_output w ns) outs acc)) = set (snd acc) \<union> via_outputs w ns outs True \<and>
   (distinct (fst acc) \<longrightarrow> distinct (fst (fold (scan_output w ns) outs acc))) \<and>
   (distinct (snd acc) \<longrightarrow> distinct (snd (fold (scan_output w ns) outs acc)))"
proof (induction outs arbitrary: acc)
  case Nil
  then show ?case by (simp add: via_outputs_def)
next
  case (Cons out outs)
  have split: "\<And>b. via_outputs w ns (out # outs) b = via_outputs w ns [out] b \<union> via_outputs w ns outs b"
    by (auto simp: via_outputs_def)
  show ?case using Cons.IH[of "scan_output w ns out acc"] scan_output_sets[of w ns out acc]
    by (simp add: split Un_assoc)
qed

lemma fold_scan_node:
  "set (fst (fold (scan_node w ns) ms acc)) = set (fst acc) \<union> via_nodes w ns ms False \<and>
   set (snd (fold (scan_node w ns) ms acc)) = set (snd acc) \<union> via_nodes w ns ms True \<and>
   (distinct (fst acc) \<longrightarrow> distinct (fst (fold (scan_node w ns) ms acc))) \<and>
   (distinct (snd acc) \<longrightarrow> distinct (snd (fold (scan_node w ns) ms acc)))"
proof (induction ms arbitrary: acc)
  case Nil
  then show ?case by (simp add: via_nodes_def)
next
  case (Cons m ms)
  let ?a1 = "fold (scan_input w ns) (node_inputs w m) acc"
  have node: "set (fst (scan_node w ns m acc)) = set (fst acc) \<union> via_nodes w ns [m] False"
      "set (snd (scan_node w ns m acc)) = set (snd acc) \<union> via_nodes w ns [m] True"
      "distinct (fst acc) \<longrightarrow> distinct (fst (scan_node w ns m acc))"
      "distinct (snd acc) \<longrightarrow> distinct (snd (scan_node w ns m acc))"
    using fold_scan_input[of w ns "node_inputs w m" acc]
          fold_scan_output[of w ns "node_outputs w m" ?a1]
    by (simp_all add: scan_node_def via_nodes_def Un_assoc)
  have split: "\<And>b. via_nodes w ns (m # ms) b = via_nodes w ns [m] b \<union> via_nodes w ns ms b"
    by (auto simp: via_nodes_def)
  show ?case using Cons.IH[of "scan_node w ns m acc"] node
    by (simp add: split Un_assoc)
qed

lemma fold_scan_selected:
  "set (fold (scan_selected ns) its acc) = set acc \<union> selected_outside ns its \<and>
   (distinct acc \<longrightarrow> distinct (fold (scan_selected ns) its acc))"
proof (induction its arbitrary: acc)
  case Nil
  then show ?case by (simp add: selected_outside_def)
next
  case (Cons i its)
  have split: "selected_outside ns (i # its) = selected_outside ns [i] \<union> selected_outside ns its"
    by (auto simp: selected_outside_def)
  have step: "set (scan_selected ns i acc) = set acc \<union> selected_outside ns [i]"
    "distinct acc \<longrightarrow> distinct (scan_selected ns i acc)"
    by (auto simp: scan_selected_def selected_outside_def set_set_add distinct_set_add split: item.splits)
  show ?case using Cons.IH[of "scan_selected ns i acc"] step
    by (simp add: split Un_assoc)
qed

lemma RemoveComponents_fields:
  "broken_connections (body (RemoveComponentsCommand w its silent)) =
     fst (fold (scan_node w (item_nodes its)) (item_nodes its) (fold (scan_selected (item_nodes its)) its [], []))"
  "internal_connections (body (RemoveComponentsCommand w its silent)) =
     snd (fold (scan_node w (item_nodes its)) (item_nodes its) (fold (scan_selected (item_nodes its)) its [], []))"
  "removed_nodes (body (RemoveComponentsCommand w its silent)) = item_nodes its"
  by (simp_all add: RemoveComponentsCommand_def Let_def setText_def FlowUndoCommand_init_def)

lemma raw_sets:
  "set (broken_connections (body (RemoveComponentsCommand w its silent))) =
      selected_outside (item_nodes its) its \<union> via_nodes w (item_nodes its) (item_nodes its) False"
  "set (internal_connections (body (RemoveComponentsCommand w its silent))) =
      via_nodes w (item_nodes its) (item_nodes its) True"
  "distinct (broken_connections (body (RemoveComponentsCommand w its silent)))"
  "distinct (internal_connections (body (RemoveComponentsCommand w its silent)))"
  using fold_scan_node[of w "item_nodes its" "item_nodes its" "(fold (scan_selected (item_nodes its)) its [], [])"]
     fold_scan_selected[of "item_nodes its" its "[]"]
  unfolding RemoveComponents_fields
  by simp_all

lemma via_inputs_sub:
  assumes "flow_consistent w ns" "n \<in> set ns" "x \<in> via_inputs w ns (node_inputs w n) b"
  shows "\<exists>out inp. x = ConnectionInfo out inp \<and> (out, inp) \<in> set (flow_conns w) \<and>
           port_node inp \<in> set ns \<and> (port_node out \<in> set ns) = b"
proof -
  from assms(3) obtain cp i where x: "x = ConnectionInfo cp i" and i: "i \<in> set (node_inputs w n)"
    and co: "connected_output w i = Some cp" and b: "(port_node cp \<in> set ns) = b"
    unfolding via_inputs_def by blast
  from assms(1,2) i have "port_node i = n" unfolding flow_consistent_def by blast
  with x co b assms(2) connected_output_Some[OF co] show ?thesis by blast
qed

lemma via_outputs_sub:
  assumes "flow_consistent w ns" "n \<in> set ns" "x \<in> via_outputs w ns (node_outputs w n) b"
  shows "\<exists>out inp. x = ConnectionInfo out inp \<and> (out, inp) \<in> set (flow_conns w) \<and>
           port_node out \<in> set ns \<and> (port_node inp \<in> set ns) = b"
proof -
  from assms(3) obtain out cp where x: "x = ConnectionInfo out cp" and o: "out \<in> set (node_outputs w n)"
    and live: "(out, cp) \<in> set (flow_conns w)" and b: "(port_node cp \<in> set ns) = b"
    unfolding via_outputs_def by blast
  from assms(1,2) o have "port_node out = n" unfolding flow_consistent_def by blast
  with x live b assms(2) show ?thesis by blast
qed

lemma via_nodes_sub:
  assumes fc: "flow_consistent w ns"
  shows "via_nodes w ns ns b \<subseteq> live_conns w ns b"
proof
  fix x assume "x \<in> via_nodes w ns ns b"
  then obtain n where n: "n \<in> set ns"
    and x: "x \<in> via_inputs w ns (node_inputs w n) b \<or> x \<in> via_outputs w ns (node_outputs w n) b"
    unfolding via_nodes_def by blast
  from x show "x \<in> live_conns w ns b"
  proof
    assume "x \<in> via_inputs w ns (node_inputs w n) b"
    from via_inputs_sub[OF fc n this] show ?thesis
      unfolding live_conns_def by (cases b) auto
  next
    assume "x \<in> via_outputs w ns (node_outputs w n) b"
    from via_outputs_sub[OF fc n this] show ?thesis
      unfolding live_conns_def by (cases b) auto
  qed
qed

lemma via_nodes_sup:
  assumes fc: "flow_consistent w ns"
  shows "live_conns w ns b \<subseteq> via_nodes w ns ns b"
proof
  fix x assume "x \<in> live_conns w ns b"
  then obtain out inp where x: "x = ConnectionInfo out inp" and live: "(out, inp) \<in> set (flow_conns w)"
      and cls: "if b then port_node out \<in> set ns \<and> port_node inp \<in> set ns
         else (port_node out \<in> set ns) \<noteq> (port_node inp \<in> set ns)"
    unfolding live_conns_def by blast
  from fc live have lo: "out \<in> set (node_outputs w (port_node out))"
    and li: "inp \<in> set (node_inputs w (port_node inp))"
    unfolding flow_consistent_def by force+
  have single: "o' = out" if "(o', inp) \<in> set (flow_conns w)" for o'
    using fc live that unfolding flow_consistent_def by force
  show "x \<in> via_nodes w ns ns b"
  proof (cases "port_node out \<in> set ns")
    case True
    with cls have "(port_node inp \<in> set ns) = b" by (cases b) auto
    with x live lo have "x \<in> via_outputs w ns (node_outputs w (port_node out)) b"
      unfolding via_outputs_def by blast
    with True show ?thesis unfolding via_nodes_def by blast
  next
    case False
    with cls have inN: "port_node inp \<in> set ns" and b: "\<not> b" by (cases b; simp)+
    from connected_output_ex[OF live] obtain cp where cp: "connected_output w inp = Some cp" by blast
    from single[OF connected_output_Some[OF cp]] have "cp = out" .
    with x cp li False b have "x \<in> via_inputs w ns (node_inputs w (port_node inp)) b"
      unfolding via_inputs_def by blast
    with inN show ?thesis unfolding via_nodes_def by blast
  qed
qed

text \<open>
  Claim C2. In a consistent graph model, for the items \<open>its\<close> handed to the constructor, with
  \<open>ns\<close> the nodes of its node items: among the live connections, the internal set holds
  exactly those with both endpoint nodes in \<open>ns\<close>; the broken set holds every live connection
  with exactly one endpoint node in \<open>ns\<close> and every selected connection item whose source
  node is outside \<open>ns\<close>, and nothing else; no connection is in both sets; neither set holds
  a connection twice.
\<close>

theorem remove_components_partition:
  assumes "flow_consistent w (item_nodes its)"
  shows
  "(let cmd = body (RemoveComponentsCommand w its silent); ns = set (item_nodes its) in
    removed_nodes cmd = item_nodes its \<and>
    (\<forall>out inp. (out, inp) \<in> set (flow_conns w) \<and> port_node out \<in> ns \<and> port_node inp \<in> ns
        \<longrightarrow> ConnectionInfo out inp \<in> set (internal_connections cmd)) \<and>
    (\<forall>out inp. (out, inp) \<in> set (flow_conns w) \<and> (port_node out \<in> ns) \<noteq> (port_node inp \<in> ns)
        \<longrightarrow> ConnectionInfo out inp \<in> set (broken_connections cmd)) \<and>
    (\<forall>ci. ConnectionItem ci \<in> set its \<and> port_node (out_port ci) \<notin> ns
        \<longrightarrow> ci \<in> set (broken_connections cmd)) \<and>
    set (internal_connections cmd) \<inter> set (broken_connections cmd) = {} \<and>
    distinct (internal_connections cmd) \<and> distinct (broken_connections cmd) \<and>
    set (internal_connections cmd) = live_conns w (item_nodes its) True \<and>
    set (broken_connections cmd) =
      live_conns w (item_nodes its) False \<union> selected_outside (item_nodes its) its)"
proof -
  have eq: "via_nodes w (item_nodes its) (item_nodes its) b = live_conns w (item_nodes its) b" for b
    using via_nodes_sub[OF assms] via_nodes_sup[OF assms] by blast
  have disj: "live_conns w (item_nodes its) True \<inter>
      (live_conns w (item_nodes its) False \<union> selected_outside (item_nodes its) its) = {}"
    unfolding live_conns_def selected_outside_def by auto
  have inside: "ConnectionInfo out inp \<in> live_conns w (item_nodes its) True"
    if "(out, inp) \<in> set (flow_conns w)" "port_node out \<in> set (item_nodes its)"
       "port_node inp \<in> set (item_nodes its)" for out inp
    using that unfolding live_conns_def by auto
  have across: "ConnectionInfo out inp \<in> live_conns w (item_nodes its) False"
    if "(out, inp) \<in> set (flow_conns w)"
       "(port_node out \<in> set (item_nodes its)) \<noteq> (port_node inp \<in> set (item_nodes its))" for out inp
    using that unfolding live_conns_def by auto
  have sel: "ci \<in> selected_outside (item_nodes its) its"
    if "ConnectionItem ci \<in> set its" "port_node (out_port ci) \<notin> set (item_nodes its)" for ci
    using that unfolding selected_outside_def by simp
  show ?thesis
    unfolding Let_def raw_sets eq RemoveComponents_fields(3)
    using disj inside across sel raw_sets(3,4)[of w its silent]
    by (simp add: Un_commute)
qed

text \<open>
  Witness for C2, the scenario of the specification: of the nodes A, B, C with the
  connections A to B and B to C, node B is removed. Both connections are broken, none is
  internal.
\<close>

theorem remove_components_partition_witness:
  "flow_consistent abc_world (item_nodes [NodeItem 2]) \<and>
   removed_nodes (body (RemoveComponentsCommand abc_world [NodeItem 2] False)) = [2] \<and>
   internal_connections (body (RemoveComponentsCommand abc_world [NodeItem 2] False)) = [] \<and>
   broken_connections (body (RemoveComponentsCommand abc_world [NodeItem 2] False)) =
     [ConnectionInfo (NodeOutput 1 0) (NodeInput 2 0),
      ConnectionInfo (NodeOutput 2 0) (NodeInput 3 0)] \<and>
   live_conns abc_world (item_nodes [NodeItem 2]) True = {}"
proof -
  have fc: "flow_consistent abc_world (item_nodes [NodeItem 2])"
    by (simp add: flow_consistent_def abc_world_def empty_world_def)
  from remove_components_partition[OF fc, of False] show ?thesis
    using fc by (simp add: abc_remove_B Let_def)
qed

subsection \<open>The operations of the flow over lists\<close>

lemma fold_add_node: "fold add_node ns w = w\<lparr>flow_nodes := flow_nodes w @ ns\<rparr>"
  by (induction ns arbitrary: w) (simp_all add: add_node_def)

lemma fold_remove_node: "fold remove_node ns w = w\<lparr>flow_nodes := fold remove1 ns (flow_nodes w)\<rparr>"
  by (induction ns arbitrary: w) (simp_all add: remove_node_def)

lemma fold_add_connection: "fold add_connection cs w = w\<lparr>flow_conns := flow_conns w @ cs\<rparr>"
  by (induction cs arbitrary: w) (simp_all add: add_connection_def)

lemma fold_remove_connection:
  "fold remove_connection cs w = w\<lparr>flow_conns := fold remove1 cs (flow_conns w)\<rparr>"
  by (induction cs arbitrary: w) (simp_all add: remove_connection_def)

lemma fold_add_drawing:
  "fold (\<lambda>d. add_drawing d None) ds w = w\<lparr>view_drawings := view_drawings w @ ds\<rparr>"
  by (induction ds arbitrary: w) (simp_all add: add_drawing_def)

lemma fold_remove_drawing:
  "fold remove_drawing ds w = w\<lparr>view_drawings := fold remove1 ds (view_drawings w)\<rparr>"
  by (induction ds arbitrary: w) (simp_all add: remove_drawing_def)

lemma restore_connections_eq:
  "restore_connections cs silent w = w\<lparr>flow_conns := flow_conns w @ map endpoints cs\<rparr>"
  unfolding restore_connections_def
  by (induction cs arbitrary: w) (simp_all add: connect_from_info_def add_connection_def endpoints_def)

lemma remove_connections_eq:
  "remove_connections cs silent w = w\<lparr>flow_conns := fold remove1 (map endpoints cs) (flow_conns w)\<rparr>"
  unfolding remove_connections_def
  by (induction cs arbitrary: w) (simp_all add: disconnect_from_info_def remove_connection_def endpoints_def)

lemma mset_fold_remove1: "mset (fold remove1 xs l) = mset l - mset xs"
  by (induction xs arbitrary: l) simp_all

lemma abc_world_fields:
  "any_cmd_active abc_world = False"
  "flow_nodes abc_world = [1, 2, 3]"
  "flow_conns abc_world = [(NodeOutput 1 0, NodeInput 2 0), (NodeOutput 2 0, NodeInput 3 0)]"
  "view_drawings abc_world = []"
  "current_selected abc_world = []"
  by (simp_all add: abc_world_def empty_world_def)

subsection \<open>ConnectPortsCommand: connecting or disconnecting\<close>

lemma find_eq: "find (\<lambda>i. i = x) xs = (if x \<in> set xs then Some x else None)"
  by (induction xs) auto

lemma ConnectPortsCommand_eq:
  "ConnectPortsCommand w out inp silent =
     FlowUndoCommand_init
       (if (out, inp) \<in> set (flow_conns w)
        then ConnectPorts silent out inp (connection_info (out, inp)) (Some (out, inp)) False
        else ConnectPorts silent out inp (connection_info (out, inp)) None True)"
proof -
  have "(inp \<in> set (connected_inputs w out)) = ((out, inp) \<in> set (flow_conns w))"
    by (force simp: connected_inputs_def)
  then show ?thesis by (simp add: ConnectPortsCommand_def find_eq)
qed

text \<open>
  Claim C5. A \<^verbatim>\<open>ConnectPortsCommand\<close> is in connecting mode exactly when the scan
  of \<^verbatim>\<open>connected_inputs(out)\<close> at its construction does not find \<open>inp\<close>. When
  \<open>out\<close> and \<open>inp\<close> are not connected, the command constructed on them is in connecting
  mode and its \<^verbatim>\<open>redo_\<close> adds the connection; a second command constructed on the
  same two ports in the state reached is in disconnecting mode, and its \<^verbatim>\<open>redo_\<close>
  removes the connection: the connections are those of the beginning, and the pair occurs
  zero times, not twice. Neither \<^verbatim>\<open>redo_\<close> nor \<^verbatim>\<open>undo_\<close> changes the mode
  of a command.
\<close>

theorem connect_ports_toggle:
  "connecting (body (ConnectPortsCommand w out inp silent)) = (inp \<notin> set (connected_inputs w out)) \<and>
   ((out, inp) \<notin> set (flow_conns w) \<longrightarrow>
     (let c1 = ConnectPortsCommand w out inp silent;
          w1 = snd (final (redo_impl c1 w));
          c2 = ConnectPortsCommand w1 out inp silent2;
          w2 = snd (final (redo_impl c2 w1))
      in connecting (body c1) \<and> flow_conns w1 = flow_conns w @ [(out, inp)] \<and>
         \<not> connecting (body c2) \<and> flow_conns w2 = flow_conns w \<and>
         count_list (flow_conns w2) (out, inp) = 0)) \<and>
   (body c = ConnectPorts s out' inp' ci conn b \<longrightarrow>
      connecting (body (fst (final (redo_impl c w')))) = b \<and>
      connecting (body (fst (final (undo_impl c w')))) = b)"
proof -
  have ci: "(inp \<in> set (connected_inputs w out)) = ((out, inp) \<in> set (flow_conns w))"
    by (force simp: connected_inputs_def)
  have keep: "body c = ConnectPorts s out' inp' ci conn b \<Longrightarrow>
      connecting (body (fst (final (redo_impl c w')))) = b \<and>
      connecting (body (fst (final (undo_impl c w')))) = b"
    by (auto simp: redo_impl_def undo_impl_def ConnectPorts_redo_impl_def ConnectPorts_undo_impl_def
        connect_ports_def setText_def split: option.splits)
  show ?thesis
    using keep
    by (simp add: ci ConnectPortsCommand_eq Let_def redo_impl_def FlowUndoCommand_init_def
        ConnectPorts_redo_impl_def connect_ports_def add_connection_def disconnect_from_info_def
        remove_connection_def connection_info_def remove1_append setText_def)
qed

text \<open>
  Witness for C5: in the scenario A, B, C the output of A and the input of C are not
  connected. The first command connects them, the second one disconnects them again.
\<close>

theorem connect_ports_toggle_witness:
  "(NodeOutput 1 0, NodeInput 3 0) \<notin> set (flow_conns abc_world) \<and>
   flow_conns abc_world = [(NodeOutput 1 0, NodeInput 2 0), (NodeOutput 2 0, NodeInput 3 0)] \<and>
   connecting (body (ConnectPortsCommand abc_world (NodeOutput 1 0) (NodeInput 3 0) False)) \<and>
   flow_conns (snd (final (redo_impl (ConnectPortsCommand abc_world (NodeOutput 1 0) (NodeInput 3 0) False) abc_world)))
     = [(NodeOutput 1 0, NodeInput 2 0), (NodeOutput 2 0, NodeInput 3 0), (NodeOutput 1 0, NodeInput 3 0)] \<and>
   \<not> connecting (body (ConnectPortsCommand
        (snd (final (redo_impl (ConnectPortsCommand abc_world (NodeOutput 1 0) (NodeInput 3 0) False) abc_world)))
        (NodeOutput 1 0) (NodeInput 3 0) False)) \<and>
   flow_conns (snd (final (redo_impl
       (ConnectPortsCommand
          (snd (final (redo_impl (ConnectPortsCommand abc_world (NodeOutput 1 0) (NodeInput 3 0) False) abc_world)))
          (NodeOutput 1 0) (NodeInput 3 0) False)
       (snd (final (redo_impl (ConnectPortsCommand abc_world (NodeOutput 1 0) (NodeInput 3 0) False) abc_world))))))
     = [(NodeOutput 1 0, NodeInput 2 0), (NodeOutput 2 0, NodeInput 3 0)]"
proof -
  have conns: "flow_conns abc_world = [(NodeOutput 1 0, NodeInput 2 0), (NodeOutput 2 0, NodeInput 3 0)]"
    by (simp add: abc_world_def empty_world_def)
  have h: "(NodeOutput 1 0, NodeInput 3 0) \<notin> set (flow_conns abc_world)"
    by (simp add: conns)
  note t = connect_ports_toggle[where w = abc_world and out = "NodeOutput 1 0" and inp = "NodeInput 3 0"
      and silent = False and ?silent2.0 = False, THEN conjunct2, THEN conjunct1, rule_format,
      OF h, unfolded Let_def]
  from t h conns show ?thesis by simp
qed

subsection \<open>Undo followed by redo\<close>

lemma cycle_Select:
  fixes c :: "'a::{plus,minus} command"
  assumes "body c = SelectComponents its prev"
  shows "settled (undo_redo (c, w)) \<and> graph_state (snd (undo_redo (c, w))) = graph_state w"
  using assms
  by (simp add: settled_def undo_redo_def undo_impl_def redo_impl_def select_items_def graph_state_def)

lemma mset_remove1_append: "x \<in> set l \<Longrightarrow> mset (remove1 x l @ [x]) = mset l"
  by simp

lemma cycle_PlaceNode:
  fixes c :: "'a::{plus,minus} command"
  assumes "body c = PlaceNode cls node pos prev" "settled (c, w)"
  shows "settled (undo_redo (c, w)) \<and> graph_state (snd (undo_redo (c, w))) = graph_state w"
proof (cases node)
  case None
  with assms show ?thesis
    by (auto simp: settled_def undo_redo_def undo_impl_def redo_impl_def PlaceNode_undo_impl_def
        PlaceNode_redo_impl_def PlaceNode_redo_with_def create_node_def print_exc_def graph_state_def)
next
  case (Some n)
  with assms show ?thesis
    by (simp add: settled_def undo_redo_def undo_impl_def redo_impl_def PlaceNode_undo_impl_def
        PlaceNode_redo_impl_def PlaceNode_redo_with_def add_node_def remove_node_def select_items_def
        emit_def on_node_placed_def setText_def graph_state_def)
qed

lemma cycle_PlaceDrawing:
  fixes c :: "'a::{plus,minus} command"
  assumes "body c = PlaceDrawing d place_pos obj_pos prev" "settled (c, w)"
  shows "settled (undo_redo (c, w)) \<and> graph_state (snd (undo_redo (c, w))) = graph_state w"
  using assms
  by (cases "drawing_call w d")
     (simp_all add: settled_def undo_redo_def undo_impl_def redo_impl_def PlaceDrawing_undo_impl_def
        PlaceDrawing_redo_impl_def add_drawing_def remove_drawing_def select_items_def
        setText_def graph_state_def Let_def)

lemma cycle_RemoveComponents:
  fixes c :: "'a::{plus,minus} command"
  assumes "body c = RemoveComponents its sel silent broken internal node_items nodes drawings"
  shows "settled (undo_redo (c, w)) \<and> graph_state (snd (undo_redo (c, w))) = graph_state w"
  using assms
  by (simp add: settled_def undo_redo_def undo_impl_def redo_impl_def RemoveComponents_undo_impl_def
      RemoveComponents_redo_impl_def fold_add_node fold_remove_node fold_add_drawing
      fold_remove_drawing restore_connections_eq remove_connections_eq select_items_def
      graph_state_def Let_def mset_fold_remove1)

lemma cycle_ConnectPorts:
  fixes c :: "'a::{plus,minus} command"
  assumes "body c = ConnectPorts silent out inp ci conn b" "settled (c, w)"
  shows "settled (undo_redo (c, w)) \<and> graph_state (snd (undo_redo (c, w))) = graph_state w"
  using assms
  by (auto simp: settled_def undo_redo_def undo_impl_def redo_impl_def ConnectPorts_undo_impl_def
      ConnectPorts_redo_impl_def connect_from_info_def disconnect_from_info_def add_connection_def
      remove_connection_def setText_def graph_state_def endpoints_def)

lemma create_drawings_fold:
  "\<exists>new. fst (fold create_one_drawing ds a) = fst a @ new \<and>
     length new = length ds \<and>
     view_drawings (snd (fold create_one_drawing ds a)) = view_drawings (snd a) @ new \<and>
     flow_nodes (snd (fold create_one_drawing ds a)) = flow_nodes (snd a) \<and>
     flow_conns (snd (fold create_one_drawing ds a)) = flow_conns (snd a) \<and>
     data_store (snd (fold create_one_drawing ds a)) = data_store (snd a)"
  (is "\<exists>new. ?P ds a new")
proof (induction ds arbitrary: a)
  case Nil
  show ?case by simp
next
  case (Cons d ds)
  from Cons.IH[of "create_one_drawing d a"] obtain new where n: "?P ds (create_one_drawing d a) new"
    by blast
  have a1: "fst (create_one_drawing d a) = fst a @ [next_id (snd a)]"
      "view_drawings (snd (create_one_drawing d a)) = view_drawings (snd a) @ [next_id (snd a)]"
      "flow_nodes (snd (create_one_drawing d a)) = flow_nodes (snd a)"
      "flow_conns (snd (create_one_drawing d a)) = flow_conns (snd a)"
      "data_store (snd (create_one_drawing d a)) = data_store (snd a)"
    by (simp_all add: create_one_drawing_def create_drawing_def add_drawing_def)
  show ?case
    apply (rule exI[of _ "next_id (snd a) # new"])
    using n a1 by simp
qed

lemma create_drawings_facts:
  assumes "create_drawings ds w = (ds1, w1)"
  shows "length ds1 = length ds" "view_drawings w1 = view_drawings w @ ds1"
    "flow_nodes w1 = flow_nodes w" "flow_conns w1 = flow_conns w" "data_store w1 = data_store w"
  using create_drawings_fold[of ds "([], w)"] assms
  by (auto simp: create_drawings_def)

lemma load_nodes_fold:
  "\<exists>new. fst (fold load_node nds a) = fst a @ new \<and>
     length new = length nds \<and>
     flow_nodes (snd (fold load_node nds a)) = flow_nodes (snd a) @ new \<and>
     view_drawings (snd (fold load_node nds a)) = view_drawings (snd a) \<and>
     flow_conns (snd (fold load_node nds a)) = flow_conns (snd a) \<and>
     data_store (snd (fold load_node nds a)) = data_store (snd a)"
  (is "\<exists>new. ?P nds a new")
proof (induction nds arbitrary: a)
  case Nil
  show ?case by simp
next
  case (Cons nd nds)
  from Cons.IH[of "load_node nd a"] obtain new where n: "?P nds (load_node nd a) new" by blast
  have a1: "fst (load_node nd a) = fst a @ [next_id (snd a)]"
      "flow_nodes (snd (load_node nd a)) = flow_nodes (snd a) @ [next_id (snd a)]"
      "view_drawings (snd (load_node nd a)) = view_drawings (snd a)"
      "flow_conns (snd (load_node nd a)) = flow_conns (snd a)"
      "data_store (snd (load_node nd a)) = data_store (snd a)"
    by (simp_all add: load_node_def new_node_def Let_def)
  show ?case
    apply (rule exI[of _ "next_id (snd a) # new"])
    using n a1 by simp
qed

lemma load_nodes_facts:
  assumes "load_nodes nds w = (ns, w1)"
  shows "length ns = length nds" "flow_nodes w1 = flow_nodes w @ ns"
    "view_drawings w1 = view_drawings w" "flow_conns w1 = flow_conns w" "data_store w1 = data_store w"
  using load_nodes_fold[of nds "([], w)"] assms
  by (auto simp: load_nodes_def)

lemma load_connections_facts:
  "load_connections ns cds acc w = Returns cs w1 \<Longrightarrow>
   (\<exists>new. cs = acc @ new \<and> flow_conns w1 = flow_conns w @ new) \<and>
   flow_nodes w1 = flow_nodes w \<and> view_drawings w1 = view_drawings w \<and>
   data_store w1 = data_store w \<and> (ns = [] \<longrightarrow> cds = [])"
proof (induction ns cds acc w rule: load_connections.induct)
  case (1 ns acc w)
  then show ?case by simp
next
  case (2 ns c cs' acc w)
  show ?case
  proof (cases "parent_node_index c < length ns \<and> connected_node c < length ns \<and>
         output_port_index c < length (node_outputs w (ns ! parent_node_index c)) \<and>
         connected_input_port_index c < length (node_inputs w (ns ! connected_node c))")
    case True
    let ?conn = "(node_outputs w (ns ! parent_node_index c) ! output_port_index c,
                     node_inputs w (ns ! connected_node c) ! connected_input_port_index c)"
    from True "2.prems" have rec: "load_connections ns cs' (acc @ [?conn]) (add_connection ?conn w) = Returns cs w1"
      by (simp add: Let_def)
    from "2.IH"[OF True refl rec] True show ?thesis
      by (auto simp: add_connection_def)
  next
    case False
    with "2.prems" show ?thesis by auto
  qed
qed

lemma load_components_facts:
  assumes "load_components nds cds w = Returns (ns, cs) w1"
  shows "length ns = length nds" "flow_nodes w1 = flow_nodes w @ ns" "flow_conns w1 = flow_conns w @ cs"
    "view_drawings w1 = view_drawings w" "data_store w1 = data_store w" "ns = [] \<longrightarrow> cds = []"
proof -
  obtain ns0 w0 where ln: "load_nodes nds w = (ns0, w0)" by (cases "load_nodes nds w")
  with assms have lc: "load_connections ns0 cds [] w0 = Returns cs w1" and ns: "ns = ns0"
    by (auto simp: load_components_def split: outcome.splits)
  from load_connections_facts[OF lc] load_nodes_facts[OF ln] ns
  show "length ns = length nds" "flow_nodes w1 = flow_nodes w @ ns" "flow_conns w1 = flow_conns w @ cs"
    "view_drawings w1 = view_drawings w" "data_store w1 = data_store w" "ns = [] \<longrightarrow> cds = []"
    by auto
qed

lemma cycle_Paste:
  fixes c :: "'a::{plus,minus} command"
  assumes b: "body c = Paste ref ns cs ds" and s: "settled (c, w)"
  shows "settled (undo_redo (c, w)) \<and> graph_state (snd (undo_redo (c, w))) = graph_state w"
proof (cases "ns = [] \<and> cs = [] \<and> ds = []")
  case True
  with s b have d: "data_nodes (data_store w ref) = []" "data_connections (data_store w ref) = []"
      "data_drawings (data_store w ref) = []"
    by (simp_all add: settled_def)
  from True b d show ?thesis
    by (simp add: settled_def undo_redo_def undo_impl_def redo_impl_def Paste_undo_impl_def
        Paste_redo_impl_def create_drawings_def load_components_def load_nodes_def
        select_new_components_in_view_def emit_def graph_state_def)
next
  case False
  with s b have sub: "mset ns \<subseteq># mset (flow_nodes w)" "mset cs \<subseteq># mset (flow_conns w)"
      "mset ds \<subseteq># mset (view_drawings w)"
    by (auto simp: settled_def)
  from False b have ur: "undo_redo (c, w) =
      (c, add_existing_components ns cs ds (emit add_existing_signal
            (fold remove_drawing ds (fold remove_node ns (fold remove_connection cs w)))))"
    by (auto simp: undo_redo_def undo_impl_def redo_impl_def Paste_undo_impl_def Paste_redo_impl_def Let_def)
  show ?thesis
    using sub b unfolding ur
    by (simp add: False settled_def add_existing_components_def select_new_components_in_view_def
        emit_def fold_add_node fold_remove_node fold_add_connection fold_remove_connection
        fold_add_drawing fold_remove_drawing graph_state_def Let_def mset_fold_remove1)
qed

lemma cycle_settled:
  fixes s :: "'a::{plus,minus} command \<times> 'a world"
  assumes "settled s"
  shows "settled (undo_redo s) \<and> graph_state (snd (undo_redo s)) = graph_state (snd s)"
proof -
  obtain c w where s: "s = (c, w)" by (cases s)
  show ?thesis
  proof (cases "body c")
    case (Delegate u r)
    with assms s show ?thesis by (simp add: settled_def)
  next
    case (MoveComponents its pf pt lpos)
    with assms s show ?thesis by (simp add: settled_def)
  next
    case (PlaceNode cls node pos prev)
    from cycle_PlaceNode[OF this] assms s show ?thesis by simp
  next
    case (PlaceDrawing d pp op prev)
    from cycle_PlaceDrawing[OF this] assms s show ?thesis by simp
  next
    case (SelectComponents its prev)
    from cycle_Select[OF this] s show ?thesis by simp
  next
    case (RemoveComponents its sel silent broken internal node_items nodes drawings)
    from cycle_RemoveComponents[OF this] s show ?thesis by simp
  next
    case (ConnectPorts silent out inp ci conn b)
    from cycle_ConnectPorts[OF this] assms s show ?thesis by simp
  next
    case (Paste ref ns cs ds)
    from cycle_Paste[OF this] assms s show ?thesis by simp
  qed
qed

lemma cycles_settled:
  fixes s :: "'a::{plus,minus} command \<times> 'a world"
  assumes "settled s"
  shows "settled ((undo_redo ^^ n) s) \<and> graph_state (snd ((undo_redo ^^ n) s)) = graph_state (snd s)"
proof (induction n)
  case 0
  with assms show ?case by simp
next
  case (Suc n)
  with cycle_settled[of "(undo_redo ^^ n) s"] show ?case by simp
qed

lemma settled_guard: "settled (c, w\<lparr>any_cmd_active := g\<rparr>) = settled (c, w)"
  by (cases "body c") (simp_all add: settled_def split: option.splits)

lemma graph_state_guard: "graph_state (w\<lparr>any_cmd_active := g\<rparr>) = graph_state w"
  by (simp add: graph_state_def)

lemma final_activate:
  assumes "\<not> any_cmd_active w"
  shows "\<exists>g. final (activate False c w) =
      (fst (final (redo_impl (c\<lparr>activated := True\<rparr>) (w\<lparr>any_cmd_active := True\<rparr>))),
       (snd (final (redo_impl (c\<lparr>activated := True\<rparr>) (w\<lparr>any_cmd_active := True\<rparr>))))\<lparr>any_cmd_active := g\<rparr>)"
proof (cases "redo_impl (c\<lparr>activated := True\<rparr>) (w\<lparr>any_cmd_active := True\<rparr>)")
  case (Returns u s)
  with assms show ?thesis
    by (cases s) (auto simp: activate_def redo_def)
next
  case (Raises e s)
  with assms have "final (activate False c w) = s"
    by (simp add: activate_def redo_def)
  then have "final (activate False c w) = (fst s, (snd s)\<lparr>any_cmd_active := any_cmd_active (snd s)\<rparr>)"
    by simp
  with Raises show ?thesis
    by (intro exI[of _ "any_cmd_active (snd s)"]) simp
qed

lemma raised_activate:
  "\<not> any_cmd_active w \<Longrightarrow>
   raised (activate False c w) = raised (redo_impl (c\<lparr>activated := True\<rparr>) (w\<lparr>any_cmd_active := True\<rparr>))"
  by (auto simp: activate_def redo_def split: outcome.splits)

lemma first_Paste:
  fixes c :: "'a::{plus,minus} command"
  assumes b: "body c = Paste ref ns cs ds" and r: "raised (redo_impl c w) = None"
  shows "settled (final (redo_impl c w))"
proof (cases "ns = [] \<and> cs = [] \<and> ds = []")
  case False
  with b show ?thesis
    by (auto simp: settled_def redo_impl_def Paste_redo_impl_def add_existing_components_def
        select_new_components_in_view_def emit_def fold_add_node fold_add_connection
        fold_add_drawing Let_def)
next
  case True
  obtain ds1 w1 where cd: "create_drawings (data_drawings (data_store w ref)) w = (ds1, w1)"
    by (cases "create_drawings (data_drawings (data_store w ref)) w")
  note cdf = create_drawings_facts[OF cd]
  from r b True cd obtain ns1 cs1 w2 where
    lc: "load_components (data_nodes (data_store w1 ref)) (data_connections (data_store w1 ref)) w1
          = Returns (ns1, cs1) w2"
    by (auto simp: redo_impl_def Paste_redo_impl_def split: outcome.splits)
  note lcf = load_components_facts[OF lc]
  from b True cd lc have fin: "final (redo_impl c w) =
      (c\<lparr>body := Paste ref ns1 cs1 ds1\<rparr>, select_new_components_in_view ns1 ds1 (emit add_new_signal w2))"
    by (simp add: redo_impl_def Paste_redo_impl_def)
  show ?thesis
    unfolding fin using cdf lcf
    by (auto simp: settled_def select_new_components_in_view_def emit_def)
qed

lemma first_other:
  fixes c :: "'a::{plus,minus} command"
  assumes "inverse_law_applies c w0" "\<forall>ref ns cs ds. body c \<noteq> Paste ref ns cs ds"
  shows "settled (final (redo_impl c w))"
proof (cases "body c")
  case (PlaceNode cls node pos prev)
  then show ?thesis
    by (cases node; cases "class_init cls")
       (auto simp: settled_def redo_impl_def PlaceNode_redo_impl_def PlaceNode_redo_with_def
        create_node_def new_node_def add_node_def emit_def print_exc_def on_node_placed_def
        setText_def Let_def)
next
  case (PlaceDrawing d pp op prev)
  then show ?thesis
    by (cases "drawing_call (add_drawing d (Some op) w) d")
       (auto simp: settled_def redo_impl_def PlaceDrawing_redo_impl_def add_drawing_def setText_def Let_def)
next
  case (ConnectPorts silent out inp ci conn b)
  with assms show ?thesis
    by (cases conn)
       (auto simp: settled_def inverse_law_applies_def redo_impl_def ConnectPorts_redo_impl_def
        connect_ports_def connect_from_info_def add_connection_def setText_def endpoints_def
        connection_info_def)
next
  case (Paste ref ns cs ds)
  with assms show ?thesis by simp
qed (use assms in \<open>auto simp: settled_def inverse_law_applies_def redo_impl_def
      MoveComponents_redo_impl_def RemoveComponents_redo_impl_def Let_def\<close>)

lemma activation_settles:
  fixes c :: "'a::{plus,minus} command"
  assumes g: "\<not> any_cmd_active w" and pre: "inverse_law_applies c w"
  shows "settled (final (activate False c w))"
proof -
  let ?c = "c\<lparr>activated := True\<rparr>" and ?w = "w\<lparr>any_cmd_active := True\<rparr>"
  have pre': "inverse_law_applies ?c w"
    using pre g by (cases "body c") (auto simp: inverse_law_applies_def activate_def)
  have "settled (final (redo_impl ?c ?w))"
  proof (cases "\<exists>ref ns cs ds. body c = Paste ref ns cs ds")
    case True
    then obtain ref ns cs ds where b: "body ?c = Paste ref ns cs ds" by auto
    from pre b g have "raised (redo_impl ?c ?w) = None"
      by (simp add: inverse_law_applies_def raised_activate)
    from first_Paste[OF b this] show ?thesis .
  next
    case False
    then have "\<forall>ref ns cs ds. body ?c \<noteq> Paste ref ns cs ds" by simp
    from first_other[OF pre' this] show ?thesis .
  qed
  moreover from final_activate[OF g, of c] obtain g' where
    "final (activate False c w) = (fst (final (redo_impl ?c ?w)), (snd (final (redo_impl ?c ?w)))\<lparr>any_cmd_active := g'\<rparr>)"
    by blast
  ultimately show ?thesis
    using settled_guard[where c = "fst (final (redo_impl ?c ?w))"
        and w = "snd (final (redo_impl ?c ?w))" and g = g'] by simp
qed

theorem inverse_law:
  fixes c :: "'a::{plus,minus} command"
  assumes "\<not> any_cmd_active w" "inverse_law_applies c w"
  shows "graph_state (snd ((undo_redo ^^ n) (final (activate False c w))))
         = graph_state (snd (final (activate False c w)))"
  using cycles_settled[OF activation_settles[OF assms]] by blast

lemma abc_after_redo:
  "snd (final (activate False (RemoveComponentsCommand abc_world [NodeItem 2] False) abc_world))
   = abc_world\<lparr>flow_nodes := [1, 3], flow_conns := []\<rparr>"
  apply (simp add: abc_remove_B activate_def redo_def abc_world_fields)
  apply (simp add: redo_impl_def RemoveComponents_redo_impl_def fold_remove_node
        fold_remove_drawing remove_connections_eq endpoints_def Let_def abc_world_fields)
  done

lemma abc_after_undo:
  "flow_nodes (snd (final (undo_impl (RemoveComponentsCommand abc_world [NodeItem 2] False)
      (abc_world\<lparr>flow_nodes := [1, 3], flow_conns := []\<rparr>)))) = [1, 3, 2] \<and>
   flow_conns (snd (final (undo_impl (RemoveComponentsCommand abc_world [NodeItem 2] False)
      (abc_world\<lparr>flow_nodes := [1, 3], flow_conns := []\<rparr>))))
     = [(NodeOutput 1 0, NodeInput 2 0), (NodeOutput 2 0, NodeInput 3 0)]"
  by (simp add: abc_remove_B undo_impl_def RemoveComponents_undo_impl_def fold_add_node
        fold_add_drawing restore_connections_eq endpoints_def select_items_def Let_def)

lemma cycle_Move:
  fixes c :: "'a::{plus,minus} command"
  assumes "body c = MoveComponents its pf pt lpos"
  shows "undo_redo (c, w) =
     (c\<lparr>body := MoveComponents its pf pt pf\<rparr>,
      w\<lparr>item_pos := (\<lambda>i. if i \<in> set its then move_cycle pf pt (item_pos w i) else item_pos w i)\<rparr>)"
  using assms
  by (simp add: undo_redo_def undo_impl_def redo_impl_def MoveComponents_undo_impl_def
      MoveComponents_redo_impl_def move_items_group_def move_cycle_def cong: if_cong)

lemma cycles_Move:
  fixes c :: "'a::{plus,minus} command"
  assumes "body c = MoveComponents its pf pt lpos"
  shows "(\<exists>l. body (fst ((undo_redo ^^ n) (c, w))) = MoveComponents its pf pt l) \<and>
     snd ((undo_redo ^^ n) (c, w)) =
       w\<lparr>item_pos := (\<lambda>i. if i \<in> set its then (move_cycle pf pt ^^ n) (item_pos w i) else item_pos w i)\<rparr>"
proof (induction n)
  case 0
  from assms show ?case by (cases w) (simp cong: if_cong)
next
  case (Suc n)
  obtain c1 w1 where s: "(undo_redo ^^ n) (c, w) = (c1, w1)"
    by (cases "(undo_redo ^^ n) (c, w)")
  with Suc obtain l where b: "body c1 = MoveComponents its pf pt l"
    and w1: "w1 = w\<lparr>item_pos := (\<lambda>i. if i \<in> set its then (move_cycle pf pt ^^ n) (item_pos w i) else item_pos w i)\<rparr>"
    by auto
  from cycle_Move[OF b, of w1] s w1 show ?case
    by (simp cong: if_cong)
qed

lemma activate_Move:
  fixes c :: "'a::{plus,minus} command"
  assumes "body c = MoveComponents its pf pt lpos"
  shows "\<exists>l. body (fst (final (activate False c w))) = MoveComponents its pf pt l"
  using assms
  by (auto simp: activate_def redo_def redo_impl_def MoveComponents_redo_impl_def Let_def)

lemma move_law:
  fixes c :: "'a::{plus,minus} command"
  assumes "body c = MoveComponents its pf pt lpos"
  shows "snd ((undo_redo ^^ n) (final (activate False c w))) =
     (snd (final (activate False c w)))
       \<lparr>item_pos := (\<lambda>i. if i \<in> set its
          then (move_cycle pf pt ^^ n) (item_pos (snd (final (activate False c w))) i)
          else item_pos (snd (final (activate False c w))) i)\<rparr>"
proof -
  obtain c1 w1 where s: "final (activate False c w) = (c1, w1)"
    by (cases "final (activate False c w)")
  with activate_Move[OF assms, of w] obtain l where "body c1 = MoveComponents its pf pt l"
    by auto
  from cycles_Move[OF this, of n w1] show ?thesis by (simp add: s cong: if_cong)
qed

lemma move_cycle_exact: "move_cycle pf pt p = QPointF_add (p :: 'b::ab_group_add QPointF) pt"
  by (simp add: move_cycle_def QPointF_add_def QPointF_sub_def)

lemma move_cycles_exact:
  "(move_cycle pf pt ^^ n) p = ((\<lambda>q. QPointF_add q pt) ^^ n) (p :: 'b::ab_group_add QPointF)"
  by (induction n) (simp_all add: move_cycle_exact)

lemma move_cycles_zero:
  "(move_cycle pf (QPointF 0 0) ^^ n) p = (p :: 'b::ab_group_add QPointF)"
  by (induction n) (simp_all add: move_cycle_exact QPointF_add_def)

lemma double_sums:
  "Double 3602879701896397 (- 55) + (Double 0 0 - Double 0 0) = Double 3602879701896397 (- 55)"
  "Double 3602879701896397 (- 55) + Double 3602879701896397 (- 54) = Double 5404319552844596 (- 54)"
  "Double 0 0 - Double 3602879701896397 (- 54) = Double (- 3602879701896397) (- 54)"
  "Double 5404319552844596 (- 54) + Double (- 3602879701896397) (- 54) = Double 1801439850948199 (- 54)"
  "\<not> same_number (Double 1801439850948199 (- 54)) (Double 3602879701896397 (- 55))"
  by code_simp+

text \<open>
  Claim C1, as stated, covers every \<^verbatim>\<open>MoveComponentsCommand\<close> and promises the
  same item positions after a cycle of \<^verbatim>\<open>undo_()\<close> and \<^verbatim>\<open>redo_()\<close>.
  First, a move of one item with \<^verbatim>\<open>p_from\<close> = (-1, 0) and
  \<^verbatim>\<open>p_to\<close> = (1, 0), in integers: after the activation the item is at (0, 0);
  \<^verbatim>\<open>undo_\<close> moves it by \<^verbatim>\<open>p_from\<close>, \<^verbatim>\<open>redo_\<close> by
  \<^verbatim>\<open>p_to - p_from\<close>, and it is at (1, 0). Second, a move with
  \<^verbatim>\<open>p_to\<close> = (0, 0) in doubles: the item is at x = 0.1 and \<^verbatim>\<open>p_from\<close>
  is (0.2, 0); after the activation the item is still at x = 0.1, and after one cycle it is at
  (0.1 + 0.2) + (0 - 0.2), which is the double 1801439850948199 * 2 ^ -54 and not 0.1.
\<close>

theorem move_drifts_counterexample:
  "item_pos (snd (final (activate False
      (MoveComponentsCommand empty_world [NodeItem 1] (QPointF (- 1) 0) (QPointF 1 0)) empty_world)))
     (NodeItem 1) = QPointF 0 0 \<and>
   item_pos (snd (undo_redo (final (activate False
      (MoveComponentsCommand empty_world [NodeItem 1] (QPointF (- 1) 0) (QPointF 1 0)) empty_world))))
     (NodeItem 1) = QPointF 1 0 \<and>
   x_of (item_pos (snd (final (activate False
      (MoveComponentsCommand float_world [NodeItem 1]
         (QPointF (Double 3602879701896397 (- 54)) (Double 0 0)) (QPointF (Double 0 0) (Double 0 0)))
      float_world))) (NodeItem 1)) = Double 3602879701896397 (- 55) \<and>
   x_of (item_pos (snd (undo_redo (final (activate False
      (MoveComponentsCommand float_world [NodeItem 1]
         (QPointF (Double 3602879701896397 (- 54)) (Double 0 0)) (QPointF (Double 0 0) (Double 0 0)))
      float_world)))) (NodeItem 1)) = Double 1801439850948199 (- 54) \<and>
   \<not> same_number (Double 1801439850948199 (- 54)) (Double 3602879701896397 (- 55))"
proof -
  have ints: "item_pos (snd (final (activate False
      (MoveComponentsCommand empty_world [NodeItem 1] (QPointF (- 1) 0) (QPointF 1 0)) empty_world)))
     (NodeItem 1) = QPointF 0 0"
   "item_pos (snd (undo_redo (final (activate False
      (MoveComponentsCommand empty_world [NodeItem 1] (QPointF (- 1) 0) (QPointF 1 0)) empty_world))))
     (NodeItem 1) = QPointF 1 0"
    by (simp_all add: activate_def redo_def redo_impl_def undo_impl_def undo_redo_def
        MoveComponentsCommand_def FlowUndoCommand_init_def setText_def MoveComponents_redo_impl_def
        MoveComponents_undo_impl_def move_items_group_def QPointF_add_def QPointF_sub_def
        empty_world_def)
  have doubles: "x_of (item_pos (snd (final (activate False
      (MoveComponentsCommand float_world [NodeItem 1]
         (QPointF (Double 3602879701896397 (- 54)) (Double 0 0)) (QPointF (Double 0 0) (Double 0 0)))
      float_world))) (NodeItem 1)) = Double 3602879701896397 (- 55)"
   "x_of (item_pos (snd (undo_redo (final (activate False
      (MoveComponentsCommand float_world [NodeItem 1]
         (QPointF (Double 3602879701896397 (- 54)) (Double 0 0)) (QPointF (Double 0 0) (Double 0 0)))
      float_world)))) (NodeItem 1)) = Double 1801439850948199 (- 54)"
    by (simp_all add: activate_def redo_def redo_impl_def undo_impl_def undo_redo_def
        MoveComponentsCommand_def FlowUndoCommand_init_def setText_def MoveComponents_redo_impl_def
        MoveComponents_undo_impl_def move_items_group_def QPointF_add_def QPointF_sub_def
        float_world_def double_sums)
  from ints doubles double_sums(5) show ?thesis by simp
qed

text \<open>
  Claim C1, amended. Nothing is assumed of the arithmetic of the coordinates, so the
  statement reads on doubles as it stands. A command to which the law applies is activated
  while no command is active; after any number of cycles of \<^verbatim>\<open>undo_()\<close> and
  \<^verbatim>\<open>redo_()\<close> the flow has the nodes and the connections, the view the drawings,
  and every item the position that they had right after the activation. The law applies to
  every \<^verbatim>\<open>PlaceNodeCommand\<close>, \<^verbatim>\<open>PlaceDrawingCommand\<close>,
  \<^verbatim>\<open>SelectComponentsCommand\<close>, \<^verbatim>\<open>RemoveComponentsCommand\<close> and
  \<^verbatim>\<open>ConnectPortsCommand\<close> as constructed, and to a \<^verbatim>\<open>PasteCommand\<close>
  exactly when its activation does not raise. For a \<^verbatim>\<open>MoveComponentsCommand\<close>,
  after \<open>n\<close> cycles the nodes, the connections and the drawings are the same as well, every
  item that is not in its list is where it was, and every item of its list is where \<open>n\<close>
  steps take it, each step from \<open>p\<close> to
  \<^verbatim>\<open>(p + p_from) + (p_to - p_from)\<close> in the arithmetic of the coordinates. Where
  that arithmetic is exact (a commutative group), a step is from \<open>p\<close> to
  \<^verbatim>\<open>p + p_to\<close>, and with the zero point as \<^verbatim>\<open>p_to\<close> the item is
  where it was.
\<close>

theorem undo_redo_restores_graph_state:
  fixes c :: "'a::{plus,minus} command" and p :: "'b::ab_group_add QPointF"
  shows
  "(\<not> any_cmd_active w \<and> inverse_law_applies c w \<longrightarrow>
      graph_state (snd ((undo_redo ^^ n) (final (activate False c w))))
        = graph_state (snd (final (activate False c w)))) \<and>
   inverse_law_applies (PlaceNodeCommand w cls pos) w \<and>
   inverse_law_applies (PlaceDrawingCommand w pos d) w \<and>
   inverse_law_applies (SelectComponentsCommand w its prev) w \<and>
   inverse_law_applies (RemoveComponentsCommand w its silent) w \<and>
   inverse_law_applies (ConnectPortsCommand w out inp silent) w \<and>
   inverse_law_applies (fst (PasteCommand w0 ref off)) w
     = (raised (activate False (fst (PasteCommand w0 ref off)) w) = None) \<and>
   (body c = MoveComponents items_list p_from p_to last_pos \<longrightarrow>
      mset (flow_nodes (snd ((undo_redo ^^ n) (final (activate False c w)))))
        = mset (flow_nodes (snd (final (activate False c w)))) \<and>
      mset (flow_conns (snd ((undo_redo ^^ n) (final (activate False c w)))))
        = mset (flow_conns (snd (final (activate False c w)))) \<and>
      mset (view_drawings (snd ((undo_redo ^^ n) (final (activate False c w)))))
        = mset (view_drawings (snd (final (activate False c w)))) \<and>
      (\<forall>i. item_pos (snd ((undo_redo ^^ n) (final (activate False c w)))) i =
         (if i \<in> set items_list
          then (move_cycle p_from p_to ^^ n) (item_pos (snd (final (activate False c w))) i)
          else item_pos (snd (final (activate False c w))) i))) \<and>
   (move_cycle q_from q_to ^^ n) p = ((\<lambda>q. QPointF_add q q_to) ^^ n) p \<and>
   (move_cycle q_from (QPointF 0 0) ^^ n) p = p"
proof -
  have law: "\<not> any_cmd_active w \<and> inverse_law_applies c w \<longrightarrow>
      graph_state (snd ((undo_redo ^^ n) (final (activate False c w))))
        = graph_state (snd (final (activate False c w)))"
    using inverse_law[of w c n] by blast
  have ctors: "inverse_law_applies (PlaceNodeCommand w cls pos) w"
   "inverse_law_applies (PlaceDrawingCommand w pos d) w"
   "inverse_law_applies (SelectComponentsCommand w its prev) w"
   "inverse_law_applies (RemoveComponentsCommand w its silent) w"
   "inverse_law_applies (ConnectPortsCommand w out inp silent) w"
   "inverse_law_applies (fst (PasteCommand w0 ref off)) w
     = (raised (activate False (fst (PasteCommand w0 ref off)) w) = None)"
    by (simp_all add: inverse_law_applies_def PlaceNodeCommand_def PlaceDrawingCommand_def
        SelectComponentsCommand_def RemoveComponentsCommand_def ConnectPortsCommand_eq
        PasteCommand_def FlowUndoCommand_init_def setText_def Let_def)
  have move: "body c = MoveComponents items_list p_from p_to last_pos \<longrightarrow>
      mset (flow_nodes (snd ((undo_redo ^^ n) (final (activate False c w)))))
        = mset (flow_nodes (snd (final (activate False c w)))) \<and>
      mset (flow_conns (snd ((undo_redo ^^ n) (final (activate False c w)))))
        = mset (flow_conns (snd (final (activate False c w)))) \<and>
      mset (view_drawings (snd ((undo_redo ^^ n) (final (activate False c w)))))
        = mset (view_drawings (snd (final (activate False c w)))) \<and>
      (\<forall>i. item_pos (snd ((undo_redo ^^ n) (final (activate False c w)))) i =
         (if i \<in> set items_list
          then (move_cycle p_from p_to ^^ n) (item_pos (snd (final (activate False c w))) i)
          else item_pos (snd (final (activate False c w))) i))"
  proof
    assume b: "body c = MoveComponents items_list p_from p_to last_pos"
    show "mset (flow_nodes (snd ((undo_redo ^^ n) (final (activate False c w)))))
        = mset (flow_nodes (snd (final (activate False c w)))) \<and>
      mset (flow_conns (snd ((undo_redo ^^ n) (final (activate False c w)))))
        = mset (flow_conns (snd (final (activate False c w)))) \<and>
      mset (view_drawings (snd ((undo_redo ^^ n) (final (activate False c w)))))
        = mset (view_drawings (snd (final (activate False c w)))) \<and>
      (\<forall>i. item_pos (snd ((undo_redo ^^ n) (final (activate False c w)))) i =
         (if i \<in> set items_list
          then (move_cycle p_from p_to ^^ n) (item_pos (snd (final (activate False c w))) i)
          else item_pos (snd (final (activate False c w))) i))"
      by (subst move_law[OF b], simp)+
  qed
  have exact: "(move_cycle q_from q_to ^^ n) p = ((\<lambda>q. QPointF_add q q_to) ^^ n) p"
    "(move_cycle q_from (QPointF 0 0) ^^ n) p = p"
    by (rule move_cycles_exact, rule move_cycles_zero)
  from law ctors move exact show ?thesis by blast
qed

text \<open>
  Witness for C1. The scenario of the specification: removing node B of A, B, C leaves the
  nodes A and C and no connection; \<^verbatim>\<open>undo_\<close> brings back B and both connections;
  after three cycles the graph is the one after the activation. And the move of one item
  with \<^verbatim>\<open>p_from\<close> = (-1, 0) and \<^verbatim>\<open>p_to\<close> = (1, 0): after two cycles
  the item is at (2, 0), another item is where it was.
\<close>

theorem undo_redo_restores_graph_state_witness:
  "\<not> any_cmd_active abc_world \<and>
   inverse_law_applies (RemoveComponentsCommand abc_world [NodeItem 2] False) abc_world \<and>
   flow_nodes (snd (final (activate False (RemoveComponentsCommand abc_world [NodeItem 2] False) abc_world))) = [1, 3] \<and>
   flow_conns (snd (final (activate False (RemoveComponentsCommand abc_world [NodeItem 2] False) abc_world))) = [] \<and>
   flow_nodes (snd (final (undo_impl (RemoveComponentsCommand abc_world [NodeItem 2] False)
      (snd (final (activate False (RemoveComponentsCommand abc_world [NodeItem 2] False) abc_world)))))) = [1, 3, 2] \<and>
   flow_conns (snd (final (undo_impl (RemoveComponentsCommand abc_world [NodeItem 2] False)
      (snd (final (activate False (RemoveComponentsCommand abc_world [NodeItem 2] False) abc_world))))))
     = [(NodeOutput 1 0, NodeInput 2 0), (NodeOutput 2 0, NodeInput 3 0)] \<and>
   graph_state (snd ((undo_redo ^^ 3)
       (final (activate False (RemoveComponentsCommand abc_world [NodeItem 2] False) abc_world))))
     = graph_state (snd (final (activate False (RemoveComponentsCommand abc_world [NodeItem 2] False) abc_world))) \<and>
   body (MoveComponentsCommand empty_world [NodeItem 1] (QPointF (- 1) 0) (QPointF 1 0))
     = MoveComponents [NodeItem 1] (QPointF (- 1) 0) (QPointF 1 0) (QPointF 1 0) \<and>
   item_pos (snd ((undo_redo ^^ 2) (final (activate False
      (MoveComponentsCommand empty_world [NodeItem 1] (QPointF (- 1) 0) (QPointF 1 0)) empty_world))))
     (NodeItem 1) = QPointF 2 0 \<and>
   item_pos (snd ((undo_redo ^^ 2) (final (activate False
      (MoveComponentsCommand empty_world [NodeItem 1] (QPointF (- 1) 0) (QPointF 1 0)) empty_world))))
     (NodeItem 2) = QPointF 0 0 \<and>
   mset (flow_nodes (snd ((undo_redo ^^ 2) (final (activate False
      (MoveComponentsCommand empty_world [NodeItem 1] (QPointF (- 1) 0) (QPointF 1 0)) empty_world)))))
     = {#}"
proof -
  let ?m = "MoveComponentsCommand empty_world [NodeItem 1] (QPointF (- 1) 0) (QPointF 1 0)"
  have g: "\<not> any_cmd_active abc_world" by (simp add: abc_world_fields)
  have pre: "inverse_law_applies (RemoveComponentsCommand abc_world [NodeItem 2] False) abc_world"
    by (simp add: abc_remove_B inverse_law_applies_def)
  note t = undo_redo_restores_graph_state[where w = abc_world and c = "RemoveComponentsCommand abc_world [NodeItem 2] False"
      and n = 3, THEN conjunct1, rule_format, OF conjI[OF g pre]]
  have b: "body ?m = MoveComponents [NodeItem 1] (QPointF (- 1) 0) (QPointF 1 0) (QPointF 1 0)"
    by (simp add: MoveComponentsCommand_def FlowUndoCommand_init_def setText_def)
  have first: "snd (final (activate False ?m empty_world)) = empty_world"
    by (simp add: activate_def redo_def redo_impl_def MoveComponentsCommand_def
        FlowUndoCommand_init_def setText_def MoveComponents_redo_impl_def
        move_items_group_def QPointF_add_def QPointF_sub_def empty_world_def cong: if_cong)
  have steps: "(move_cycle (QPointF (- 1) 0) (QPointF 1 0) ^^ 2) (QPointF 0 0) = (QPointF 2 0 :: int QPointF)"
    by (simp add: numeral_2_eq_2 move_cycle_def QPointF_add_def QPointF_sub_def)
  note m = undo_redo_restores_graph_state[where w = empty_world and c = ?m and n = 2
      and items_list = "[NodeItem 1]" and p_from = "QPointF (- 1) 0" and p_to = "QPointF 1 0"
      and last_pos = "QPointF 1 0",
      THEN conjunct2, THEN conjunct2, THEN conjunct2, THEN conjunct2, THEN conjunct2,
      THEN conjunct2, THEN conjunct2, THEN conjunct1, rule_format, OF b, unfolded first]
  have e: "item_pos empty_world i = QPointF 0 0" "flow_nodes empty_world = []" for i
    by (simp_all add: empty_world_def)
  from m have mv: "item_pos (snd ((undo_redo ^^ 2) (final (activate False ?m empty_world)))) (NodeItem 1) = QPointF 2 0"
    "item_pos (snd ((undo_redo ^^ 2) (final (activate False ?m empty_world)))) (NodeItem 2) = QPointF 0 0"
    "mset (flow_nodes (snd ((undo_redo ^^ 2) (final (activate False ?m empty_world))))) = {#}"
    by (simp_all add: steps e)
  from t g pre abc_after_undo b mv show ?thesis
    by (simp add: abc_after_redo)
qed

subsection \<open>PasteCommand: what a later redo does\<close>








end
